theory Spec2Isabelle
  imports Main "HOL-Library.Word"
begin

unbundle bit_operations_syntax

section \<open>The marshalling layer of \<^verbatim>\<open>wasm/wasm.go\<close>\<close>

text \<open>
  The host adapter exchanges byte buffers with a guest WebAssembly module through the
  guest's linear memory. A buffer in guest memory is addressed by a 64-bit descriptor:
  the length in the upper half, the offset in the lower half.

  Conventions of the embedding.
  \<^item> Go's \<^verbatim>\<open>int\<close> and \<^verbatim>\<open>int64\<close> are \<open>64 word\<close>, \<^verbatim>\<open>int32\<close> is \<open>32 word\<close>; \<open>sint\<close> reads
    them. The engine binding runs on 64-bit platforms only. A value of \<^verbatim>\<open>len(...)\<close> is a
    \<open>nat\<close>: a Go length is never negative and stays below \<open>2^63\<close>, so comparing and
    multiplying by 8 cannot wrap; the shift \<^verbatim>\<open>sz<<32\<close> can, and is done on words.
  \<^item> A Go \<^verbatim>\<open>error\<close> is \<open>Error msg\<close>; a run-time panic is \<open>Panic p\<close>. Both are values of
    \<open>failure\<close>, the left summand of every result.
  \<^item> The engine is external. An instance is its export table, its linear memory and the
    guest's private state \<open>'g\<close> (globals, allocator bookkeeping). An exported function
    maps its arguments, the private state and the memory to an error or a value, and to
    the new private state and memory. A \<^verbatim>\<open>wasm.Value\<close> is its 64 bits of payload.
  \<^item> A slice of the memory is an alias: a write through \<^verbatim>\<open>mem\<close> is a write into the
    instance's memory at the slice's base offset. The linear memory is taken to stay in
    place when the guest grows it.
\<close>

subsection \<open>Values, failures, instances\<close>

type_synonym byte = "8 word"

type_synonym Value = "64 word"

datatype panic =
    NilFunctionCall
  | SliceBoundsOutOfRange
  | IndexOutOfRange
  | MakeSliceLenOutOfRange
  | WriteOutsideMemory

datatype failure = Panic panic | Error string

type_synonym 'g export =
  "64 word list \<Rightarrow> 'g \<Rightarrow> byte list \<Rightarrow> (string + Value) \<times> 'g \<times> byte list"

record 'g Instance =
  Exports :: "string \<Rightarrow> 'g export option"
  Memory :: "byte list"
  Guest :: 'g

text \<open>\<^verbatim>\<open>Value.ToI32\<close> and \<^verbatim>\<open>Value.ToI64\<close> read the payload at the requested width.\<close>

definition ToI32 :: "Value \<Rightarrow> 32 word" where
  "ToI32 v = ucast v"

definition ToI64 :: "Value \<Rightarrow> 64 word" where
  "ToI64 v = v"

text \<open>
  Calling an export that exists: \<^verbatim>\<open>fn(args...)\<close>. The guest may change its memory and
  its private state whether or not the call succeeds.
\<close>

definition call :: "'g Instance \<Rightarrow> 'g export \<Rightarrow> 64 word list \<Rightarrow> (string + Value) \<times> 'g Instance" where
  "call instance fn args =
     (case fn args (Guest instance) (Memory instance) of
        (res, g, m) \<Rightarrow> (res, instance\<lparr>Memory := m, Guest := g\<rparr>))"

text \<open>
  The slice expression \<^verbatim>\<open>s[i:]\<close>: Go panics unless \<open>0 \<le> i \<le> len(s)\<close>.
\<close>

definition slice_from :: "byte list \<Rightarrow> int \<Rightarrow> panic + byte list" where
  "slice_from s i =
     (if i < 0 \<or> int (length s) < i then Inl SliceBoundsOutOfRange
      else Inr (drop (nat i) s))"

text \<open>
  The builtin \<^verbatim>\<open>copy(dst, src)\<close> overwrites the first \<open>min(len(dst), len(src))\<close> elements
  of \<open>dst\<close>; the result is the new content of \<open>dst\<close>.
\<close>

definition copy :: "byte list \<Rightarrow> byte list \<Rightarrow> byte list" where
  "copy dst src =
     take (min (length dst) (length src)) src @ drop (min (length dst) (length src)) dst"

subsection \<open>The descriptor\<close>

text \<open>
  Packing, as \<^verbatim>\<open>allocateInner\<close> and \<^verbatim>\<open>allocate\<close> return it:
  \<^verbatim>\<open>int64(sz<<32) | int64(ptr)\<close> with \<^verbatim>\<open>sz\<close> an \<^verbatim>\<open>int\<close> and \<^verbatim>\<open>ptr\<close> an \<^verbatim>\<open>int32\<close>, which the
  conversion sign-extends.
\<close>

definition pack :: "64 word \<Rightarrow> 32 word \<Rightarrow> 64 word" where
  "pack sz ptr = push_bit 32 sz OR scast ptr"

text \<open>
  Unpacking, as \<^verbatim>\<open>parseOutput\<close> starts:
  \<^verbatim>\<open>sz, pointer := int(ptr>>32), (ptr & ((1 << 32) - 1))\<close>. The shift of a signed
  \<^verbatim>\<open>int64\<close> is arithmetic.
\<close>

definition unpack :: "64 word \<Rightarrow> 64 word \<times> 64 word" where
  "unpack ptr = (signed_drop_bit 32 ptr, ptr AND (push_bit 32 1 - 1))"

subsection \<open>Writing one buffer\<close>

definition allocateInner :: "'g Instance \<Rightarrow> byte list \<Rightarrow> (failure + 64 word) \<times> 'g Instance" where
  "allocateInner instance data =
     (let sz = length data in
      case Exports instance ''__allocate'' of
        None \<Rightarrow> (Inl (Panic NilFunctionCall), instance)
      | Some fn \<Rightarrow>
          (case call instance fn [of_nat sz] of
             (Inl err, instance') \<Rightarrow> (Inl (Error err), instance')
           | (Inr res, instance') \<Rightarrow>
               (let ptr = ToI32 res in
                case slice_from (Memory instance') (sint ptr) of
                  Inl p \<Rightarrow> (Inl (Panic p), instance')
                | Inr mem \<Rightarrow>
                    if length mem < sz
                    then (Inl (Error ''allocateInner: invalid memory size''), instance')
                    else (Inr (pack (of_nat sz) ptr),
                          instance'\<lparr>Memory :=
                            take (nat (sint ptr)) (Memory instance') @ copy mem data\<rparr>))))"

definition storeParams :: "'g Instance \<Rightarrow> byte list \<Rightarrow> (failure + 64 word) \<times> 'g Instance" where
  "storeParams instance params = allocateInner instance params"

subsection \<open>Reading a buffer back\<close>

text \<open>
  The loop \<^verbatim>\<open>for idx := 0; idx < sz; idx++ { res[idx] = mem[idx] }\<close>. The index
  expression \<^verbatim>\<open>mem[idx]\<close> panics past the end of \<^verbatim>\<open>mem\<close>.
\<close>

function parseOutput_loop :: "byte list \<Rightarrow> byte list \<Rightarrow> nat \<Rightarrow> nat \<Rightarrow> panic + byte list" where
  "parseOutput_loop res mem idx sz =
     (if idx < sz then
        (if length mem \<le> idx \<or> length res \<le> idx then Inl IndexOutOfRange
         else parseOutput_loop (res[idx := mem ! idx]) mem (idx + 1) sz)
      else Inr res)"
  by pat_completeness auto
termination
  by (relation "measure (\<lambda>(res, mem, idx, sz). sz - idx)") auto

declare parseOutput_loop.simps [simp del]

definition parseOutput :: "'g Instance \<Rightarrow> 64 word \<Rightarrow> failure + byte list" where
  "parseOutput instance ptr =
     (case unpack ptr of
        (sz, pointer) \<Rightarrow>
          (case slice_from (Memory instance) (sint pointer) of
             Inl p \<Rightarrow> Inl (Panic p)
           | Inr mem \<Rightarrow>
               if int (length mem) < sint sz
               then Inl (Error ''parseOutput: invalid memory size'')
               else if sint sz < 0 then Inl (Panic MakeSliceLenOutOfRange)
               else (case parseOutput_loop (replicate (nat (sint sz)) 0) mem 0 (nat (sint sz)) of
                       Inl p \<Rightarrow> Inl (Panic p)
                     | Inr res \<Rightarrow> Inr res)))"

subsection \<open>Writing an array of buffers\<close>

text \<open>
  \<^verbatim>\<open>binary.LittleEndian.PutUint64(b, v)\<close> stores \<open>v\<close> in eight bytes, the least
  significant first.
\<close>

definition PutUint64 :: "64 word \<Rightarrow> byte list" where
  "PutUint64 v =
     [ucast v, ucast (drop_bit 8 v), ucast (drop_bit 16 v), ucast (drop_bit 24 v),
      ucast (drop_bit 32 v), ucast (drop_bit 40 v), ucast (drop_bit 48 v),
      ucast (drop_bit 56 v)]"

text \<open>
  The body of \<^verbatim>\<open>for idx, each := range data\<close> in \<^verbatim>\<open>allocate\<close>. The slice \<^verbatim>\<open>mem\<close> was
  taken before the loop: \<open>base\<close> is its offset in the memory and \<open>cap\<close> its length at
  that time. The slice expression \<^verbatim>\<open>mem[8*idx:8*idx+8]\<close> is checked against \<open>cap\<close>; the
  eight bytes then go to the memory at \<open>base + 8 * idx\<close>. Linear memory never shrinks,
  so these addresses exist in a real engine; the model makes the other case a fault of
  its own instead of leaving it unspecified. The result is the first failure, if any.
\<close>

fun allocate_loop ::
  "'g Instance \<Rightarrow> nat \<Rightarrow> nat \<Rightarrow> nat \<Rightarrow> byte list list \<Rightarrow> failure option \<times> 'g Instance" where
  "allocate_loop instance base cap idx [] = (None, instance)"
| "allocate_loop instance base cap idx (each # rest) =
     (case allocateInner instance each of
        (Inl err, instance') \<Rightarrow> (Some err, instance')
      | (Inr loc, instance') \<Rightarrow>
          if cap < 8 * idx + 8 then (Some (Panic SliceBoundsOutOfRange), instance')
          else if length (Memory instance') < base + 8 * idx + 8
          then (Some (Panic WriteOutsideMemory), instance')
          else allocate_loop
                 (instance'\<lparr>Memory :=
                    take (base + 8 * idx) (Memory instance') @ PutUint64 loc @
                    drop (base + 8 * idx + 8) (Memory instance')\<rparr>)
                 base cap (idx + 1) rest)"

definition allocate :: "'g Instance \<Rightarrow> byte list list \<Rightarrow> (failure + 64 word) \<times> 'g Instance" where
  "allocate instance data =
     (let sz = length data in
      case Exports instance ''__allocate'' of
        None \<Rightarrow> (Inl (Panic NilFunctionCall), instance)
      | Some fn \<Rightarrow>
          (case call instance fn [of_nat (8 * sz)] of
             (Inl err, instance') \<Rightarrow> (Inl (Error err), instance')
           | (Inr res, instance') \<Rightarrow>
               (let ptr = ToI32 res in
                case slice_from (Memory instance') (sint ptr) of
                  Inl p \<Rightarrow> (Inl (Panic p), instance')
                | Inr mem \<Rightarrow>
                    if length mem < 8 * sz
                    then (Inl (Error ''allocate: invalid memory size''), instance')
                    else
                      (case allocate_loop instance' (nat (sint ptr)) (length mem) 0 data of
                         (Some err, instance'') \<Rightarrow> (Inl err, instance'')
                       | (None, instance'') \<Rightarrow> (Inr (pack (of_nat sz) ptr), instance'')))))"

subsection \<open>Iterating over a string\<close>

text \<open>
  \<^verbatim>\<open>for _, ch := range string(rawResult)\<close> decodes UTF-8. A byte below \<open>0x80\<close> is its
  own code point. Otherwise the run-time decodes one sequence of two to four bytes; a
  sequence that is truncated, has a wrong continuation byte, is overlong, encodes a
  surrogate or exceeds \<open>0x10FFFF\<close> yields \<open>0xFFFD\<close> and consumes a single byte. The
  result of \<open>decoderune\<close> is the code point and the number of bytes consumed.
\<close>

definition continuation :: "byte \<Rightarrow> bool" where
  "continuation b \<longleftrightarrow> 0x80 \<le> b \<and> b \<le> 0xBF"

definition decoderune :: "byte list \<Rightarrow> int \<times> nat" where
  "decoderune s =
     (if 0xC0 \<le> s ! 0 \<and> s ! 0 < 0xE0 then
        (if 1 < length s \<and> continuation (s ! 1) then
           (let r = push_bit 6 (uint (s ! 0 AND 0x1F)) OR uint (s ! 1 AND 0x3F)
            in if 0x7F < r then (r, 2) else (0xFFFD, 1))
         else (0xFFFD, 1))
      else if 0xE0 \<le> s ! 0 \<and> s ! 0 < 0xF0 then
        (if 2 < length s \<and> continuation (s ! 1) \<and> continuation (s ! 2) then
           (let r = push_bit 12 (uint (s ! 0 AND 0x0F)) OR push_bit 6 (uint (s ! 1 AND 0x3F))
                    OR uint (s ! 2 AND 0x3F)
            in if 0x7FF < r \<and> (r < 0xD800 \<or> 0xDFFF < r) then (r, 3) else (0xFFFD, 1))
         else (0xFFFD, 1))
      else if 0xF0 \<le> s ! 0 \<and> s ! 0 < 0xF8 then
        (if 3 < length s \<and> continuation (s ! 1) \<and> continuation (s ! 2) \<and> continuation (s ! 3) then
           (let r = push_bit 18 (uint (s ! 0 AND 0x07)) OR push_bit 12 (uint (s ! 1 AND 0x3F))
                    OR push_bit 6 (uint (s ! 2 AND 0x3F)) OR uint (s ! 3 AND 0x3F)
            in if 0xFFFF < r \<and> r \<le> 0x10FFFF then (r, 4) else (0xFFFD, 1))
         else (0xFFFD, 1))
      else (0xFFFD, 1))"

fun range_string :: "byte list \<Rightarrow> int list" where
  "range_string [] = []"
| "range_string (b # bs) =
     (if b < 0x80 then uint b # range_string bs
      else (case decoderune (b # bs) of (r, n) \<Rightarrow> r # range_string (drop (n - 1) bs)))"

subsection \<open>The seven operations\<close>

text \<open>
  Each operation instantiates the module, writes its inputs, looks its export up, calls
  it and copies the result out. The engine's \<^verbatim>\<open>wasm.NewInstance\<close> is a parameter: it
  maps the module's bytes to an error or an instance. The character class
  \<^verbatim>\<open>unicode.IsPrint\<close> of the standard library is a parameter of \<open>Name\<close>. A Go string is
  its bytes. The deferred \<^verbatim>\<open>instance.Close()\<close> has no effect on a result.
\<close>

text \<open>The loop of \<open>Name\<close>: the failure at the first character that is not printable.\<close>

fun Name_loop :: "(int \<Rightarrow> bool) \<Rightarrow> int list \<Rightarrow> failure option" where
  "Name_loop IsPrint [] = None"
| "Name_loop IsPrint (ch # rest) =
     (if \<not> IsPrint ch then Some (Error ''Invalid name character'')
      else Name_loop IsPrint rest)"

definition Name ::
  "(byte list \<Rightarrow> string + 'g Instance) \<Rightarrow> (int \<Rightarrow> bool) \<Rightarrow> byte list \<Rightarrow> failure + byte list" where
  "Name NewInstance IsPrint code =
     (case NewInstance code of
        Inl err \<Rightarrow> Inl (Error err)
      | Inr instance \<Rightarrow>
          (case Exports instance ''__name'' of
             None \<Rightarrow> Inl (Error ''__name not implemented'')
           | Some fn \<Rightarrow>
               (case call instance fn [] of
                  (Inl err, instance') \<Rightarrow> Inl (Error err)
                | (Inr ptr, instance') \<Rightarrow>
                    (case parseOutput instance' (ToI64 ptr) of
                       Inl err \<Rightarrow> Inl err
                     | Inr rawResult \<Rightarrow>
                         (case Name_loop IsPrint (range_string rawResult) of
                            Some err \<Rightarrow> Inl err
                          | None \<Rightarrow> Inr rawResult)))))"

definition ParamsInfo ::
  "(byte list \<Rightarrow> string + 'g Instance) \<Rightarrow> byte list \<Rightarrow> failure + byte list" where
  "ParamsInfo NewInstance code =
     (case NewInstance code of
        Inl err \<Rightarrow> Inl (Error err)
      | Inr instance \<Rightarrow>
          (case Exports instance ''__params_info'' of
             None \<Rightarrow> Inl (Error ''__params_info not implemented'')
           | Some fn \<Rightarrow>
               (case call instance fn [] of
                  (Inl err, instance') \<Rightarrow> Inl (Error err)
                | (Inr ptr, instance') \<Rightarrow> parseOutput instance' (ToI64 ptr))))"

definition ParseParams ::
  "(byte list \<Rightarrow> string + 'g Instance) \<Rightarrow> byte list \<Rightarrow> byte list \<Rightarrow> failure + byte list" where
  "ParseParams NewInstance code params =
     (case NewInstance code of
        Inl err \<Rightarrow> Inl (Error err)
      | Inr instance \<Rightarrow>
          (case storeParams instance params of
             (Inl err, instance1) \<Rightarrow> Inl err
           | (Inr paramsInput, instance1) \<Rightarrow>
               (case Exports instance1 ''__parse_params'' of
                  None \<Rightarrow> Inl (Error ''__parse_params not implemented'')
                | Some fn \<Rightarrow>
                    (case call instance1 fn [paramsInput] of
                       (Inl err, instance') \<Rightarrow> Inl (Error err)
                     | (Inr ptr, instance') \<Rightarrow> parseOutput instance' (ToI64 ptr)))))"

definition RawDataInfo ::
  "(byte list \<Rightarrow> string + 'g Instance) \<Rightarrow> byte list \<Rightarrow> failure + byte list" where
  "RawDataInfo NewInstance code =
     (case NewInstance code of
        Inl err \<Rightarrow> Inl (Error err)
      | Inr instance \<Rightarrow>
          (case Exports instance ''__raw_data_info'' of
             None \<Rightarrow> Inl (Error ''__raw_data_info not implemented'')
           | Some fn \<Rightarrow>
               (case call instance fn [] of
                  (Inl err, instance') \<Rightarrow> Inl (Error err)
                | (Inr ptr, instance') \<Rightarrow> parseOutput instance' (ToI64 ptr))))"

text \<open>
  In \<open>ParseRawData\<close> the error of \<^verbatim>\<open>storeParams\<close> is assigned to \<^verbatim>\<open>err\<close> and overwritten
  by the next statement before anything reads it. A failed \<^verbatim>\<open>storeParams\<close> returns the
  descriptor 0, which the operation goes on to use; only a panic ends it there.
\<close>

definition ParseRawData ::
  "(byte list \<Rightarrow> string + 'g Instance) \<Rightarrow> byte list \<Rightarrow> byte list \<Rightarrow> byte list \<Rightarrow> failure + byte list" where
  "ParseRawData NewInstance code params data =
     (case NewInstance code of
        Inl err \<Rightarrow> Inl (Error err)
      | Inr instance \<Rightarrow>
          (case storeParams instance params of
             (Inl (Panic p), instance1) \<Rightarrow> Inl (Panic p)
           | (r, instance1) \<Rightarrow>
               (let paramsInput = (case r of Inr d \<Rightarrow> d | Inl err \<Rightarrow> 0) in
                case allocateInner instance1 data of
                  (Inl err, instance2) \<Rightarrow> Inl err
                | (Inr dataInput, instance2) \<Rightarrow>
                    (case Exports instance2 ''__parse_raw_data'' of
                       None \<Rightarrow> Inl (Error ''__parse_raw_data not implemented'')
                     | Some fn \<Rightarrow>
                         (case call instance2 fn [paramsInput, dataInput] of
                            (Inl err, instance') \<Rightarrow> Inl (Error err)
                          | (Inr ptr, instance') \<Rightarrow> parseOutput instance' (ToI64 ptr))))))"

definition Prepare ::
  "(byte list \<Rightarrow> string + 'g Instance) \<Rightarrow> byte list \<Rightarrow> byte list \<Rightarrow> failure + byte list" where
  "Prepare NewInstance code params =
     (case NewInstance code of
        Inl err \<Rightarrow> Inl (Error err)
      | Inr instance \<Rightarrow>
          (case storeParams instance params of
             (Inl err, instance1) \<Rightarrow> Inl err
           | (Inr paramsInput, instance1) \<Rightarrow>
               (case Exports instance1 ''__prepare'' of
                  None \<Rightarrow> Inl (Error ''__prepare not implemented'')
                | Some fn \<Rightarrow>
                    (case call instance1 fn [paramsInput] of
                       (Inl err, instance') \<Rightarrow> Inl (Error err)
                     | (Inr ptr, instance') \<Rightarrow> parseOutput instance' (ToI64 ptr)))))"

definition Execute ::
  "(byte list \<Rightarrow> string + 'g Instance) \<Rightarrow> byte list \<Rightarrow> byte list \<Rightarrow> byte list list \<Rightarrow> failure + byte list" where
  "Execute NewInstance code params inputs =
     (case NewInstance code of
        Inl err \<Rightarrow> Inl (Error err)
      | Inr instance \<Rightarrow>
          (case storeParams instance params of
             (Inl err, instance1) \<Rightarrow> Inl err
           | (Inr paramsInput, instance1) \<Rightarrow>
               (case allocate instance1 inputs of
                  (Inl err, instance2) \<Rightarrow> Inl err
                | (Inr wasmInput, instance2) \<Rightarrow>
                    (case Exports instance2 ''__execute'' of
                       None \<Rightarrow> Inl (Error ''__execute not implemented'')
                     | Some fn \<Rightarrow>
                         (case call instance2 fn [paramsInput, wasmInput] of
                            (Inl err, instance') \<Rightarrow> Inl (Error err)
                          | (Inr ptr, instance') \<Rightarrow> parseOutput instance' (ToI64 ptr))))))"

subsection \<open>The guest's side of the wire format\<close>

text \<open>
  What a reader of the wire format does, after the format's description and not after
  any code of the host: a descriptor carries the length in its upper 32 bits and the
  offset in its lower 32 bits, both unsigned; the table of a buffer array is a run of
  8-byte little-endian descriptors starting at the outer descriptor's offset, one per
  element, the count being the outer descriptor's length field. \<open>Uint64\<close> is
  \<^verbatim>\<open>binary.LittleEndian.Uint64\<close>, the inverse of \<open>PutUint64\<close>. A range that leaves the
  memory reads as \<open>None\<close>.
\<close>

fun Uint64 :: "byte list \<Rightarrow> 64 word" where
  "Uint64 [] = 0"
| "Uint64 (b # bs) = ucast b OR push_bit 8 (Uint64 bs)"

definition descriptor_length :: "64 word \<Rightarrow> nat" where
  "descriptor_length d = unat (drop_bit 32 d)"

definition descriptor_offset :: "64 word \<Rightarrow> nat" where
  "descriptor_offset d = unat (take_bit 32 d)"

definition read_buffer :: "byte list \<Rightarrow> 64 word \<Rightarrow> byte list option" where
  "read_buffer m d =
     (if descriptor_offset d + descriptor_length d \<le> length m
      then Some (take (descriptor_length d) (drop (descriptor_offset d) m))
      else None)"

definition table_entry :: "byte list \<Rightarrow> 64 word \<Rightarrow> nat \<Rightarrow> byte list" where
  "table_entry m d i = take 8 (drop (descriptor_offset d + 8 * i) m)"

definition read_array :: "byte list \<Rightarrow> 64 word \<Rightarrow> byte list option list" where
  "read_array m d =
     map (\<lambda>i. read_buffer m (Uint64 (table_entry m d i))) [0..<descriptor_length d]"

subsection \<open>Guest allocators\<close>

text \<open>
  The host checks that a block lies inside the memory. It trusts \<^verbatim>\<open>__allocate\<close> for what
  it cannot check: that a block handed out is fresh. \<open>fresh_allocator fn live\<close> states
  this for any allocator: \<open>live g\<close> is the set of addresses that belong to blocks handed
  out so far in guest state \<open>g\<close>. A successful call for \<open>n\<close> bytes returns a block
  that shares no address with \<open>live\<close>, adds the block to \<open>live\<close>, keeps \<open>live\<close>
  inside the memory, never shrinks the memory (linear memory can only grow) and leaves
  every live byte as it was. Nothing is asked of a call that fails, and nothing of the
  order of the addresses.
\<close>

definition fresh_allocator :: "'g export \<Rightarrow> ('g \<Rightarrow> nat set) \<Rightarrow> bool" where
  "fresh_allocator fn live \<longleftrightarrow>
     (\<forall>n g m res g' m'.
        live g \<subseteq> {..<length m} \<longrightarrow> fn [n] g m = (Inr res, g', m') \<longrightarrow>
          {nat (sint (ToI32 res))..<nat (sint (ToI32 res)) + unat n} \<inter> live g = {} \<and>
          live g \<union> {nat (sint (ToI32 res))..<nat (sint (ToI32 res)) + unat n} \<subseteq> live g' \<and>
          live g' \<subseteq> {..<length m'} \<and>
          length m \<le> length m' \<and>
          (\<forall>a\<in>live g. m' ! a = m ! a))"

subsection \<open>Example guests\<close>

text \<open>
  A bump allocator over a memory of fixed size: the guest state is the next free
  offset. It fails when the block does not fit or would end at or above \<open>2^31\<close>.
\<close>

definition bump_allocate :: "nat export" where
  "bump_allocate args g m =
     (case args of
        [n] \<Rightarrow>
          if g + unat n \<le> length m \<and> g + unat n < 2 ^ 31
          then (Inr (of_nat g), g + unat n, m)
          else (Inl ''out of memory'', g, m)
      | _ \<Rightarrow> (Inl ''bad arguments'', g, m))"

text \<open>An export that returns its first argument: the result is the first input.\<close>

definition echo :: "nat export" where
  "echo args g m =
     (case args of
        [] \<Rightarrow> (Inl ''bad arguments'', g, m)
      | d # ds \<Rightarrow> (Inr d, g, m))"

text \<open>
  A module that exports only the listed names, each bound to \<open>echo\<close>, next to the bump
  allocator; its memory is \<open>n\<close> zero bytes, all free.
\<close>

definition bump_instance :: "string list \<Rightarrow> nat \<Rightarrow> nat Instance" where
  "bump_instance names n =
     \<lparr>Exports = (\<lambda>name. if name = ''__allocate'' then Some bump_allocate
                          else if name \<in> set names then Some echo else None),
      Memory = replicate n 0,
      Guest = 0\<rparr>"

text \<open>A module without any export, over a given memory.\<close>

definition bare_instance :: "byte list \<Rightarrow> unit Instance" where
  "bare_instance m = \<lparr>Exports = (\<lambda>name. None), Memory = m, Guest = ()\<rparr>"

text \<open>A module whose only export, \<^verbatim>\<open>__name\<close>, returns the descriptor \<open>d\<close>.\<close>

definition name_instance :: "64 word \<Rightarrow> byte list \<Rightarrow> unit Instance" where
  "name_instance d m =
     \<lparr>Exports = (\<lambda>name. if name = ''__name'' then Some (\<lambda>args g mem. (Inr d, g, mem)) else None),
      Memory = m, Guest = ()\<rparr>"

text \<open>
  A module whose allocator accepts any request but one of three bytes, always at offset
  0, and whose other listed exports return their last argument.
\<close>

definition picky_allocate :: "unit export" where
  "picky_allocate args g m =
     (case args of
        [n] \<Rightarrow> if n = 3 then (Inl ''allocation refused'', g, m) else (Inr 0, g, m)
      | _ \<Rightarrow> (Inl ''bad arguments'', g, m))"

definition echo_last :: "unit export" where
  "echo_last args g m =
     (case args of
        [] \<Rightarrow> (Inl ''bad arguments'', g, m)
      | d # ds \<Rightarrow> (Inr (last args), g, m))"

definition picky_instance :: "string list \<Rightarrow> unit Instance" where
  "picky_instance names =
     \<lparr>Exports = (\<lambda>name. if name = ''__allocate'' then Some picky_allocate
                          else if name \<in> set names then Some echo_last else None),
      Memory = replicate 8 0,
      Guest = ()\<rparr>"

text \<open>The printable characters of ASCII, standing in for \<^verbatim>\<open>unicode.IsPrint\<close> on them.\<close>

definition ascii_print :: "int \<Rightarrow> bool" where
  "ascii_print r \<longleftrightarrow> 0x20 \<le> r \<and> r \<le> 0x7E"

text \<open>
  A module with two gibibytes of memory whose allocator always answers offset 0.
\<close>

definition big_instance :: "unit Instance" where
  "big_instance =
     \<lparr>Exports = (\<lambda>name. if name = ''__allocate'' then Some (\<lambda>args g m. (Inr 0, g, m)) else None),
      Memory = replicate (2 ^ 31) 0,
      Guest = ()\<rparr>"

text \<open>
  A module with 16 bytes of memory whose allocator answers offset 0 to every request:
  its blocks overlap.
\<close>

definition overlapping_instance :: "unit Instance" where
  "overlapping_instance =
     \<lparr>Exports = (\<lambda>name. if name = ''__allocate'' then Some (\<lambda>args g m. (Inr 0, g, m)) else None),
      Memory = replicate 16 0,
      Guest = ()\<rparr>"

section \<open>Properties\<close>

subsection \<open>Words\<close>

lemma not_bit_31_if_nonneg: "0 \<le> sint (p :: 32 word) \<Longrightarrow> \<not> bit p 31"
  using bit_last_iff [of p] by simp

lemma scast_nonneg: "0 \<le> sint (p :: 32 word) \<Longrightarrow> (scast p :: 64 word) = ucast p"
  by (rule bit_word_eqI)
    (auto simp add: bit_word_scast_iff bit_word_ucast_iff
      dest: not_bit_31_if_nonneg bit_imp_le_length)

lemma low_mask: "(push_bit 32 1 - 1 :: 64 word) = mask 32"
  by (simp add: mask_eq_exp_minus_1)

lemma pack_low_half:
  "0 \<le> sint (p :: 32 word) \<Longrightarrow> (push_bit 32 (s :: 64 word) OR scast p) AND mask 32 = ucast p"
  apply (simp add: scast_nonneg)
  apply (rule bit_word_eqI)
  apply (auto simp add: bit_simps dest: bit_imp_le_length)
  done

lemma nat_high_bits_clear: "n < 2 ^ k \<Longrightarrow> k \<le> j \<Longrightarrow> \<not> bit (n :: nat) j"
  by (metis bit_take_bit_iff take_bit_nat_eq_self not_less)

lemma pack_high_half_bits:
  "0 \<le> sint (p :: 32 word) \<Longrightarrow> (\<And>j. 31 \<le> j \<Longrightarrow> \<not> bit (s :: 64 word) j) \<Longrightarrow>
   signed_drop_bit 32 (push_bit 32 s OR scast p) = s"
  apply (simp add: scast_nonneg)
  apply (rule bit_word_eqI)
  apply (auto simp add: bit_simps dest: bit_imp_le_length split: if_splits)
  done

lemma pack_high_half:
  "0 \<le> sint (p :: 32 word) \<Longrightarrow> n < 2 ^ 31 \<Longrightarrow>
   signed_drop_bit 32 (push_bit 32 (of_nat n :: 64 word) OR scast p) = of_nat n"
proof (rule pack_high_half_bits)
  fix j :: nat
  assume "n < 2 ^ 31" and "31 \<le> j"
  then have "\<not> bit n j" by (rule nat_high_bits_clear)
  then show "\<not> bit (of_nat n :: 64 word) j" by (simp add: bit_simps)
qed assumption

lemma unpack_pack_of_nat:
  assumes "0 \<le> sint ptr" and "n < 2 ^ 31"
  shows "unpack (pack (of_nat n) ptr) = (of_nat n, ucast ptr)"
  using assms by (simp only: unpack_def pack_def low_mask pack_low_half pack_high_half)

lemma sint_eq_uint_64: "uint (w :: 64 word) < 2 ^ 63 \<Longrightarrow> sint w = uint w"
proof -
  assume less: "uint w < 2 ^ 63"
  have "- (2 ^ 63) \<le> uint w" by (rule order_trans [of _ 0]) simp_all
  then have "signed_take_bit 63 (uint w) = uint w"
    using less by (rule signed_take_bit_int_eq_self)
  then show ?thesis by (simp add: sint_uint)
qed

lemma sint_of_nat_64: "n < 2 ^ 63 \<Longrightarrow> sint (of_nat n :: 64 word) = int n"
  by (simp add: signed_of_nat signed_take_bit_int_eq_self)

lemma sint_eq_uint_32: "0 \<le> sint (p :: 32 word) \<Longrightarrow> sint p = uint p"
proof -
  assume "0 \<le> sint p"
  then have clear: "\<not> bit (uint p) 31"
    by (simp add: bit_uint_iff not_bit_31_if_nonneg)
  then have "signed_take_bit 31 (uint p) = take_bit 31 (uint p)"
    by (rule signed_take_bit_eq_if_positive)
  moreover have "take_bit (Suc 31) (uint p) = take_bit 31 (uint p)"
    using clear by (simp only: take_bit_Suc_from_most) simp
  moreover have "take_bit (Suc 31) (uint p) = uint p"
    by (rule take_bit_int_eq_self) (use uint_lt2p [of p] in simp_all)
  ultimately show ?thesis by (simp add: sint_uint)
qed

lemma sint_ucast_32_64: "sint (ucast (p :: 32 word) :: 64 word) = uint p"
proof -
  have "uint (ucast p :: 64 word) = uint p" by (simp add: uint_up_ucast is_up)
  moreover have "uint p < 2 ^ 63" using uint_lt2p [of p] by simp
  ultimately show ?thesis using sint_eq_uint_64 [of "ucast p"] by simp
qed

subsection \<open>The descriptor codec\<close>

text \<open>
  C3, amended. For every length \<open>sz\<close> with \<open>0 \<le> sz < 2^31\<close> and every offset \<open>ptr\<close>
  that is non-negative as an \<^verbatim>\<open>int32\<close>, unpacking the packed descriptor returns exactly
  the length and the offset (converted to 64 bits).
\<close>

theorem unpack_pack_inverse:
  assumes "0 \<le> sint sz" and "sint sz < 2 ^ 31" and "0 \<le> sint ptr"
  shows "unpack (pack sz ptr) = (sz, scast ptr)"
proof -
  have "nat (sint sz) < 2 ^ 31" using assms(1,2) by simp
  moreover have "sz = of_nat (nat (sint sz))" using assms(1) by simp
  ultimately have "unpack (pack sz ptr) = (sz, ucast ptr)"
    using unpack_pack_of_nat [OF assms(3), of "nat (sint sz)"] by simp
  then show ?thesis by (simp add: scast_nonneg [OF assms(3)])
qed

text \<open>The inverse law at length 5 and offset 3.\<close>

theorem unpack_pack_inverse_witness:
  "0 \<le> sint (5 :: 64 word) \<and> sint (5 :: 64 word) < 2 ^ 31 \<and> 0 \<le> sint (3 :: 32 word) \<and>
   unpack (pack 5 3) = (5, scast (3 :: 32 word))"
  using unpack_pack_inverse [of 5 3] by simp

text \<open>
  C3 as stated fails at the 32-bit length \<open>2^31\<close> with offset 0: the arithmetic shift
  of \<open>unpack\<close> sign-extends the length to \<open>-2^31\<close>.
\<close>

theorem unpack_pack_counterexample:
  "unpack (pack 0x80000000 0) = (0xFFFFFFFF80000000, 0) \<and>
   unpack (pack 0x80000000 0) \<noteq> (0x80000000, scast (0 :: 32 word))"
  by (simp add: pack_def unpack_def)

text \<open>
  An offset with its top bit set does not survive either: as an \<^verbatim>\<open>int32\<close> it is negative,
  and its sign extension overwrites the length.
\<close>

lemma unpack_pack_negative_offset: "unpack (pack 1 0x80000000) = (- 1, 0x80000000)"
  by (simp add: pack_def unpack_def)

subsection \<open>The output reader\<close>

text \<open>The copy loop returns the first \<open>sz\<close> bytes of \<open>mem\<close> and never leaves its range.\<close>

lemma parseOutput_loop_eq:
  "sz \<le> length mem \<Longrightarrow> length res = sz \<Longrightarrow> idx \<le> sz \<Longrightarrow>
   parseOutput_loop res mem idx sz = Inr (take idx res @ take (sz - idx) (drop idx mem))"
proof (induction res mem idx sz rule: parseOutput_loop.induct)
  case (1 res mem idx sz)
  show ?case
  proof (cases "idx < sz")
    case True
    have "parseOutput_loop res mem idx sz =
        parseOutput_loop (res[idx := mem ! idx]) mem (idx + 1) sz"
      using True 1(2,3) by (subst parseOutput_loop.simps) simp
    also have "\<dots> = Inr (take (idx + 1) (res[idx := mem ! idx]) @
        take (sz - (idx + 1)) (drop (idx + 1) mem))"
      using True 1 by simp
    also have "take (idx + 1) (res[idx := mem ! idx]) = take idx res @ [mem ! idx]"
      using True 1(3) by (simp add: take_Suc_conv_app_nth)
    also have "(take idx res @ [mem ! idx]) @ take (sz - (idx + 1)) (drop (idx + 1) mem) =
        take idx res @ take (sz - idx) (drop idx mem)"
      using True 1(2)
      by (simp add: Cons_nth_drop_Suc [symmetric] take_Suc_Cons [symmetric] Suc_diff_Suc
          del: take_Suc_Cons)
    finally show ?thesis .
  next
    case False
    then show ?thesis using 1(3,4) by (subst parseOutput_loop.simps) simp
  qed
qed

lemma parseOutput_loop_copies:
  "sz \<le> length mem \<Longrightarrow> parseOutput_loop (replicate sz 0) mem 0 sz = Inr (take sz mem)"
  by (simp add: parseOutput_loop_eq)

lemma unpack_offset_nonneg: "0 \<le> sint (snd (unpack ptr))"
proof -
  have "uint (ptr AND mask 32) < 2 ^ 32" by (rule and_mask_lt_2p)
  then have "uint (ptr AND mask 32) < 2 ^ 63" by simp
  then have "sint (ptr AND mask 32) = uint (ptr AND mask 32)" by (rule sint_eq_uint_64)
  then show ?thesis by (simp only: unpack_def low_mask snd_conv) simp
qed

text \<open>The four outcomes of \<open>parseOutput\<close>, by the descriptor's fields.\<close>

lemma parseOutput_cases:
  assumes "unpack ptr = (sz, pointer)"
  shows "parseOutput instance ptr =
     (if int (length (Memory instance)) < sint pointer then Inl (Panic SliceBoundsOutOfRange)
      else if int (length (Memory instance)) - sint pointer < sint sz
        then Inl (Error ''parseOutput: invalid memory size'')
      else if sint sz < 0 then Inl (Panic MakeSliceLenOutOfRange)
      else Inr (take (nat (sint sz)) (drop (nat (sint pointer)) (Memory instance))))"
proof -
  let ?mem = "drop (nat (sint pointer)) (Memory instance)"
  have nonneg: "0 \<le> sint pointer" using unpack_offset_nonneg [of ptr] assms by simp
  show ?thesis
  proof (cases "int (length (Memory instance)) < sint pointer")
    case True
    then show ?thesis using assms by (simp add: parseOutput_def slice_from_def)
  next
    case inside: False
    then have len: "int (length ?mem) = int (length (Memory instance)) - sint pointer"
      using nonneg by simp
    show ?thesis
    proof (cases "int (length (Memory instance)) - sint pointer < sint sz \<or> sint sz < 0")
      case True
      then show ?thesis using assms inside nonneg len
        by (auto simp add: parseOutput_def slice_from_def)
    next
      case False
      then have "nat (sint sz) \<le> length ?mem"
        using len by linarith
      then have "parseOutput_loop (replicate (nat (sint sz)) 0) ?mem 0 (nat (sint sz)) =
          Inr (take (nat (sint sz)) ?mem)"
        by (rule parseOutput_loop_copies)
      then show ?thesis using assms False inside nonneg len
        by (simp add: parseOutput_def slice_from_def)
    qed
  qed
qed

text \<open>
  A descriptor whose offset lies inside the memory and whose non-negative length runs past
  the end is refused with the error.
\<close>

lemma parseOutput_rejects_inside:
  assumes "unpack ptr = (sz, pointer)"
    and "sint pointer \<le> int (length (Memory instance))"
    and "int (length (Memory instance)) < sint pointer + sint sz"
  shows "parseOutput instance ptr = Inl (Error ''parseOutput: invalid memory size'')"
  using assms(2,3) by (simp add: parseOutput_cases [OF assms(1)])

lemma unpack_1_5: "unpack 0x0000000100000005 = (1, 5)"
  by (simp add: unpack_def)

text \<open>
  C1, at the descriptor of length 1 and offset 5 over a memory of 4 bytes: the offset
  alone lies past the end, and the slice expression \<^verbatim>\<open>Data()[pointer:]\<close> panics before
  the bounds check is reached. No error value is returned.
\<close>

theorem parseOutput_offset_past_end:
  "unpack 0x0000000100000005 = (1, 5) \<and>
   length (Memory (bare_instance [1, 2, 3, 4])) = 4 \<and>
   parseOutput (bare_instance [1, 2, 3, 4]) 0x0000000100000005 =
     Inl (Panic SliceBoundsOutOfRange)"
  by (simp add: parseOutput_cases [OF unpack_1_5] unpack_1_5 bare_instance_def)

lemma unpack_top_bit: "unpack 0x8000000000000001 = (- 0x80000000, 1)"
  by (simp add: unpack_def)

text \<open>
  A descriptor with bit 63 set has a negative length after the arithmetic shift: the
  bounds check lets it through and \<^verbatim>\<open>make([]byte, sz)\<close> panics.
\<close>

lemma parseOutput_negative_length:
  "parseOutput (bare_instance [1, 2, 3, 4]) 0x8000000000000001 =
     Inl (Panic MakeSliceLenOutOfRange)"
  by (simp add: parseOutput_cases [OF unpack_top_bit] bare_instance_def)

subsection \<open>Writing a buffer and reading it back\<close>

lemma copy_fits: "length src \<le> length dst \<Longrightarrow> copy dst src = src @ drop (length src) dst"
  by (simp add: copy_def min_def)

text \<open>When the allocator answers with a block inside the memory, the write succeeds.\<close>

lemma allocateInner_success:
  assumes "Exports instance ''__allocate'' = Some fn"
    and "fn [of_nat (length data)] (Guest instance) (Memory instance) = (Inr res, g, m)"
    and "0 \<le> sint (ToI32 res)"
    and "nat (sint (ToI32 res)) + length data \<le> length m"
  shows "allocateInner instance data =
     (Inr (pack (of_nat (length data)) (ToI32 res)),
      instance\<lparr>Memory := take (nat (sint (ToI32 res))) m @ data @
                   drop (nat (sint (ToI32 res)) + length data) m,
                Guest := g\<rparr>)"
proof -
  have inside: "\<not> int (length m) < sint (ToI32 res)" using assms(3,4) by linarith
  have fits: "\<not> length m - nat (sint (ToI32 res)) < length data" using assms(4) by linarith
  then have "copy (drop (nat (sint (ToI32 res))) m) data =
      data @ drop (nat (sint (ToI32 res)) + length data) m"
    by (simp add: copy_fits add.commute)
  then show ?thesis
    using assms(1,2,3) inside fits
    by (simp add: allocateInner_def call_def slice_from_def Let_def)
qed

lemma read_back: "off \<le> length m \<Longrightarrow> take (length B) (drop off (take off m @ B @ rest)) = B"
  by simp

text \<open>
  C2, amended. For every byte sequence \<open>B\<close> shorter than \<open>2^31\<close> bytes and every instance
  whose allocator answers the request for \<open>length B\<close> bytes with an in-bounds offset,
  \<open>storeParams\<close> succeeds and \<open>parseOutput\<close> of the descriptor it returns yields exactly
  \<open>B\<close>.
\<close>

theorem storeParams_parseOutput_roundtrip:
  assumes "Exports instance ''__allocate'' = Some fn"
    and "fn [of_nat (length B)] (Guest instance) (Memory instance) = (Inr res, g, m)"
    and "0 \<le> sint (ToI32 res)"
    and "nat (sint (ToI32 res)) + length B \<le> length m"
    and "length B < 2 ^ 31"
  shows "\<exists>d instance'. storeParams instance B = (Inr d, instance') \<and>
           parseOutput instance' d = Inr B"
proof -
  let ?ptr = "ToI32 res"
  let ?off = "nat (sint ?ptr)"
  let ?i = "instance\<lparr>Memory := take ?off m @ B @ drop (?off + length B) m, Guest := g\<rparr>"
  let ?d = "pack (of_nat (length B)) ?ptr"
  have stored: "storeParams instance B = (Inr ?d, ?i)"
    unfolding storeParams_def using assms(1-4) by (rule allocateInner_success)
  have fields: "unpack ?d = (of_nat (length B), ucast ?ptr)"
    using assms(3,5) by (rule unpack_pack_of_nat)
  have offset: "sint (ucast ?ptr :: 64 word) = sint ?ptr"
    using assms(3) by (simp add: sint_ucast_32_64 sint_eq_uint_32)
  have count: "sint (of_nat (length B) :: 64 word) = int (length B)"
    using assms(5) by (simp add: sint_of_nat_64)
  have "parseOutput ?i ?d = Inr (take (length B) (drop ?off (Memory ?i)))"
    using assms(3,4) by (simp add: parseOutput_cases [OF fields] offset count)
  also have "\<dots> = Inr B"
    using assms(4) by (simp add: read_back)
  finally show ?thesis using stored by blast
qed

text \<open>The round trip of three bytes through a bump allocator over 16 bytes of memory.\<close>

theorem storeParams_parseOutput_roundtrip_witness:
  "Exports (bump_instance [] 16) ''__allocate'' = Some bump_allocate \<and>
   bump_allocate [of_nat (length [1, 2, 3 :: byte])]
       (Guest (bump_instance [] 16)) (Memory (bump_instance [] 16)) =
     (Inr 0, 3, replicate 16 0) \<and>
   0 \<le> sint (ToI32 0) \<and>
   nat (sint (ToI32 0)) + length [1, 2, 3 :: byte] \<le> length (replicate 16 (0 :: byte)) \<and>
   length [1, 2, 3 :: byte] < 2 ^ 31 \<and>
   (\<exists>d instance'. storeParams (bump_instance [] 16) [1, 2, 3] = (Inr d, instance') \<and>
      parseOutput instance' d = Inr [1, 2, 3])"
proof -
  have 1: "Exports (bump_instance [] 16) ''__allocate'' = Some bump_allocate"
    by (simp add: bump_instance_def)
  have 2: "bump_allocate [of_nat (length [1, 2, 3 :: byte])]
       (Guest (bump_instance [] 16)) (Memory (bump_instance [] 16)) =
     (Inr 0, 3, replicate 16 0)"
    by (simp add: bump_instance_def bump_allocate_def)
  have 3: "0 \<le> sint (ToI32 0)" by (simp add: ToI32_def)
  have 4: "nat (sint (ToI32 0)) + length [1, 2, 3 :: byte] \<le> length (replicate 16 (0 :: byte))"
    by (simp add: ToI32_def)
  have 5: "length [1, 2, 3 :: byte] < 2 ^ 31" by simp
  from storeParams_parseOutput_roundtrip [OF 1 2 3 4 5] 1 2 3 4 5 show ?thesis by blast
qed

lemma unpack_min: "unpack 0x8000000000000000 = (- 0x80000000, 0)"
  by (simp add: unpack_def)

text \<open>
  C2 as stated fails for a buffer of \<open>2^31\<close> bytes. The allocator answers offset 0, in
  bounds of a memory of \<open>2^31\<close> bytes; the write succeeds and returns a descriptor with
  bit 63 set; reading it back panics on the negative length.
\<close>

theorem storeParams_parseOutput_counterexample:
  "nat (sint (ToI32 0)) + length (replicate (2 ^ 31) (7 :: byte)) \<le> length (Memory big_instance) \<and>
   storeParams big_instance (replicate (2 ^ 31) 7) =
     (Inr 0x8000000000000000, big_instance\<lparr>Memory := replicate (2 ^ 31) 7\<rparr>) \<and>
   parseOutput (big_instance\<lparr>Memory := replicate (2 ^ 31) 7\<rparr>) 0x8000000000000000 =
     Inl (Panic MakeSliceLenOutOfRange)"
  by (simp add: storeParams_def allocateInner_def big_instance_def call_def ToI32_def
      slice_from_def copy_def pack_def parseOutput_cases [OF unpack_min])

subsection \<open>The export table stays as it is\<close>

text \<open>Writing buffers changes the memory and the guest's state, never the exports.\<close>

lemma Exports_allocateInner:
  "allocateInner instance data = (r, i) \<Longrightarrow> Exports i = Exports instance"
  by (auto simp add: allocateInner_def call_def Let_def
      split: option.splits prod.splits sum.splits if_splits)

lemma Exports_storeParams:
  "storeParams instance params = (r, i) \<Longrightarrow> Exports i = Exports instance"
  unfolding storeParams_def by (rule Exports_allocateInner)

lemma Exports_allocate_loop:
  "allocate_loop instance base cap idx data = (r, i) \<Longrightarrow> Exports i = Exports instance"
proof (induction data arbitrary: "instance" idx)
  case Nil
  then show ?case by simp
next
  case (Cons each rest)
  obtain r1 i1 where step: "allocateInner instance each = (r1, i1)"
    by (cases "allocateInner instance each")
  then have same: "Exports i1 = Exports instance" by (rule Exports_allocateInner)
  show ?case
  proof (cases r1)
    case (Inl err)
    then show ?thesis using Cons.prems step same by simp
  next
    case (Inr loc)
    show ?thesis
    proof (cases "cap < 8 * idx + 8 \<or> length (Memory i1) < base + 8 * idx + 8")
      case True
      then show ?thesis using Cons.prems step same Inr by (auto split: if_splits)
    next
      case False
      then have "allocate_loop
          (i1\<lparr>Memory := take (base + 8 * idx) (Memory i1) @ PutUint64 loc @
             drop (base + 8 * idx + 8) (Memory i1)\<rparr>) base cap (idx + 1) rest = (r, i)"
        using Cons.prems step Inr by simp
      from Cons.IH [OF this] same show ?thesis by simp
    qed
  qed
qed

lemma Exports_allocate:
  "allocate instance data = (r, i) \<Longrightarrow> Exports i = Exports instance"
proof (cases "Exports instance ''__allocate''")
  case None
  assume "allocate instance data = (r, i)"
  then show ?thesis using None by (simp add: allocate_def)
next
  case (Some fn)
  assume res: "allocate instance data = (r, i)"
  obtain r1 i1 where c: "call instance fn [of_nat (8 * length data)] = (r1, i1)"
    by (cases "call instance fn [of_nat (8 * length data)]")
  then have e: "Exports i1 = Exports instance" by (auto simp add: call_def split: prod.splits)
  show ?thesis
  proof (cases r1)
    case (Inl err)
    then show ?thesis using res Some c e by (simp add: allocate_def)
  next
    case (Inr v)
    show ?thesis
    proof (cases "slice_from (Memory i1) (sint (ToI32 v))")
      case (Inl p)
      then show ?thesis using res Some c e Inr by (simp add: allocate_def)
    next
      case mem: (Inr mem)
      show ?thesis
      proof (cases "length mem < 8 * length data")
        case True
        then show ?thesis using res Some c e Inr mem by (simp add: allocate_def)
      next
        case False
        obtain r2 i2 where
          l: "allocate_loop i1 (nat (sint (ToI32 v))) (length mem) 0 data = (r2, i2)"
          by (cases "allocate_loop i1 (nat (sint (ToI32 v))) (length mem) 0 data")
        then have "Exports i2 = Exports i1" by (rule Exports_allocate_loop)
        then show ?thesis using res Some c e Inr mem False l
          by (auto simp add: allocate_def split: option.splits)
      qed
    qed
  qed
qed

subsection \<open>Evaluating the example guests\<close>

lemmas eval_defs =
  storeParams_def allocateInner_def allocate_def call_def ToI32_def ToI64_def slice_from_def
  pack_def copy_def Let_def bump_instance_def bump_allocate_def echo_def picky_instance_def
  picky_allocate_def echo_last_def PutUint64_def

lemma unpack_1_0: "unpack 0x100000000 = (1, 0)"
  by (simp add: unpack_def)

lemma unpack_3_0: "unpack 0x300000000 = (3, 0)"
  by (simp add: unpack_def)

subsection \<open>Missing exports\<close>

text \<open>
  C8, amended. Against a module that instantiates and lacks the operation's export:
  \<open>Name\<close>, \<open>ParamsInfo\<close> and \<open>RawDataInfo\<close> fail with the error naming the export;
  \<open>ParseParams\<close>, \<open>ParseRawData\<close>, \<open>Prepare\<close> and \<open>Execute\<close> fail with the error naming
  the export provided their input writes, which come first, have succeeded.
\<close>

theorem missing_export_rejected:
  assumes "NewInstance code = Inr instance"
  shows
   "(Exports instance ''__name'' = None \<longrightarrow>
       Name NewInstance IsPrint code = Inl (Error ''__name not implemented'')) \<and>
    (Exports instance ''__params_info'' = None \<longrightarrow>
       ParamsInfo NewInstance code = Inl (Error ''__params_info not implemented'')) \<and>
    (Exports instance ''__raw_data_info'' = None \<longrightarrow>
       RawDataInfo NewInstance code = Inl (Error ''__raw_data_info not implemented'')) \<and>
    (Exports instance ''__parse_params'' = None \<and>
       fst (storeParams instance params) = Inr d1 \<longrightarrow>
       ParseParams NewInstance code params =
         Inl (Error ''__parse_params not implemented'')) \<and>
    (Exports instance ''__parse_raw_data'' = None \<and>
       fst (storeParams instance params) = Inr d1 \<and>
       fst (allocateInner (snd (storeParams instance params)) data) = Inr d2 \<longrightarrow>
       ParseRawData NewInstance code params data =
         Inl (Error ''__parse_raw_data not implemented'')) \<and>
    (Exports instance ''__prepare'' = None \<and>
       fst (storeParams instance params) = Inr d1 \<longrightarrow>
       Prepare NewInstance code params = Inl (Error ''__prepare not implemented'')) \<and>
    (Exports instance ''__execute'' = None \<and>
       fst (storeParams instance params) = Inr d1 \<and>
       fst (allocate (snd (storeParams instance params)) inputs) = Inr d3 \<longrightarrow>
       Execute NewInstance code params inputs = Inl (Error ''__execute not implemented''))"
proof -
  obtain r1 i1 where s: "storeParams instance params = (r1, i1)"
    by (cases "storeParams instance params")
  then have e1: "Exports i1 = Exports instance" by (rule Exports_storeParams)
  obtain r2 i2 where a: "allocateInner i1 data = (r2, i2)" by (cases "allocateInner i1 data")
  then have e2: "Exports i2 = Exports instance"
    using Exports_allocateInner [of i1 data r2 i2] e1 by simp
  obtain r3 i3 where b: "allocate i1 inputs = (r3, i3)" by (cases "allocate i1 inputs")
  then have e3: "Exports i3 = Exports instance"
    using Exports_allocate [of i1 inputs r3 i3] e1 by simp
  have "Exports instance ''__name'' = None \<longrightarrow>
       Name NewInstance IsPrint code = Inl (Error ''__name not implemented'')"
    using assms by (simp add: Name_def)
  moreover have "Exports instance ''__params_info'' = None \<longrightarrow>
       ParamsInfo NewInstance code = Inl (Error ''__params_info not implemented'')"
    using assms by (simp add: ParamsInfo_def)
  moreover have "Exports instance ''__raw_data_info'' = None \<longrightarrow>
       RawDataInfo NewInstance code = Inl (Error ''__raw_data_info not implemented'')"
    using assms by (simp add: RawDataInfo_def)
  moreover have "Exports instance ''__parse_params'' = None \<and>
       fst (storeParams instance params) = Inr d1 \<longrightarrow>
       ParseParams NewInstance code params = Inl (Error ''__parse_params not implemented'')"
    using assms s e1 by (simp add: ParseParams_def)
  moreover have "Exports instance ''__parse_raw_data'' = None \<and>
       fst (storeParams instance params) = Inr d1 \<and>
       fst (allocateInner (snd (storeParams instance params)) data) = Inr d2 \<longrightarrow>
       ParseRawData NewInstance code params data =
         Inl (Error ''__parse_raw_data not implemented'')"
    using assms s a e2 by (simp add: ParseRawData_def)
  moreover have "Exports instance ''__prepare'' = None \<and>
       fst (storeParams instance params) = Inr d1 \<longrightarrow>
       Prepare NewInstance code params = Inl (Error ''__prepare not implemented'')"
    using assms s e1 by (simp add: Prepare_def)
  moreover have "Exports instance ''__execute'' = None \<and>
       fst (storeParams instance params) = Inr d1 \<and>
       fst (allocate (snd (storeParams instance params)) inputs) = Inr d3 \<longrightarrow>
       Execute NewInstance code params inputs = Inl (Error ''__execute not implemented'')"
    using assms s b e3 by (simp add: Execute_def)
  ultimately show ?thesis by blast
qed

lemma bump_store_1_2: "fst (storeParams (bump_instance [] 64) [1, 2]) = Inr 0x200000000"
  by (simp add: eval_defs)

lemma bump_store_9:
  "fst (allocateInner (snd (storeParams (bump_instance [] 64) [1, 2])) [9]) = Inr 0x100000002"
  by (simp add: eval_defs)

lemma bump_store_array:
  "fst (allocate (snd (storeParams (bump_instance [] 64) [1, 2])) [[5]]) = Inr 0x100000002"
  by (simp add: eval_defs)

text \<open>
  The seven operations against a module that exports only \<^verbatim>\<open>__allocate\<close>, a working
  bump allocator over 64 bytes.
\<close>

theorem missing_export_rejected_witness:
  "Name (\<lambda>code. Inr (bump_instance [] 64)) ascii_print [] =
     Inl (Error ''__name not implemented'') \<and>
   ParamsInfo (\<lambda>code. Inr (bump_instance [] 64)) [] =
     Inl (Error ''__params_info not implemented'') \<and>
   RawDataInfo (\<lambda>code. Inr (bump_instance [] 64)) [] =
     Inl (Error ''__raw_data_info not implemented'') \<and>
   ParseParams (\<lambda>code. Inr (bump_instance [] 64)) [] [1, 2] =
     Inl (Error ''__parse_params not implemented'') \<and>
   ParseRawData (\<lambda>code. Inr (bump_instance [] 64)) [] [1, 2] [9] =
     Inl (Error ''__parse_raw_data not implemented'') \<and>
   Prepare (\<lambda>code. Inr (bump_instance [] 64)) [] [1, 2] =
     Inl (Error ''__prepare not implemented'') \<and>
   Execute (\<lambda>code. Inr (bump_instance [] 64)) [] [1, 2] [[5]] =
     Inl (Error ''__execute not implemented'')"
proof -
  have none: "\<And>name. name \<noteq> ''__allocate'' \<Longrightarrow> Exports (bump_instance [] 64) name = None"
    by (simp add: bump_instance_def)
  from missing_export_rejected [of "\<lambda>code. Inr (bump_instance [] 64)" "[]" "bump_instance [] 64"
      ascii_print "[1, 2]" "0x200000000" "[9]" "0x100000002" "[[5]]" "0x100000002"]
  show ?thesis using bump_store_1_2 bump_store_9 bump_store_array by (simp add: none)
qed

text \<open>
  C8 as stated fails for an operation with inputs. The module lacks \<^verbatim>\<open>__parse_params\<close>
  and its allocator refuses the request: \<open>ParseParams\<close> returns the allocator's error,
  not the error naming the missing export.
\<close>

theorem missing_export_counterexample:
  "Exports (picky_instance []) ''__parse_params'' = None \<and>
   ParseParams (\<lambda>code. Inr (picky_instance [])) [] [1, 2, 3] =
     Inl (Error ''allocation refused'')"
  by (simp add: ParseParams_def eval_defs)

subsection \<open>Input writes come first\<close>

text \<open>
  A failed input write ends \<open>ParseParams\<close>, \<open>Prepare\<close> and \<open>Execute\<close> with the write's
  own failure, whether or not the operation's export exists.
\<close>

lemma input_write_failure_first:
  assumes "NewInstance code = Inr instance"
  shows "fst (storeParams instance params) = Inl err \<Longrightarrow>
           ParseParams NewInstance code params = Inl err"
    and "fst (storeParams instance params) = Inl err \<Longrightarrow>
           Prepare NewInstance code params = Inl err"
    and "fst (storeParams instance params) = Inl err \<Longrightarrow>
           Execute NewInstance code params inputs = Inl err"
    and "fst (storeParams instance params) = Inr d \<Longrightarrow>
         fst (allocate (snd (storeParams instance params)) inputs) = Inl err \<Longrightarrow>
           Execute NewInstance code params inputs = Inl err"
    and "fst (allocateInner (snd (storeParams instance params)) data) = Inl err \<Longrightarrow>
         (\<forall>p. fst (storeParams instance params) \<noteq> Inl (Panic p)) \<Longrightarrow>
           ParseRawData NewInstance code params data = Inl err"
  using assms
  by (auto simp add: ParseParams_def Prepare_def Execute_def ParseRawData_def
      split: prod.splits sum.splits failure.splits)

text \<open>
  \<^verbatim>\<open>__allocate\<close> is called without a check that it exists: without it every input
  write is a call of a nil function.
\<close>

lemma missing_allocate_panics:
  assumes "Exports instance ''__allocate'' = None"
  shows "fst (allocateInner instance data) = Inl (Panic NilFunctionCall)"
    and "fst (storeParams instance params) = Inl (Panic NilFunctionCall)"
    and "fst (allocate instance inputs) = Inl (Panic NilFunctionCall)"
  using assms by (simp_all add: allocateInner_def storeParams_def allocate_def)

text \<open>
  C7, at a module whose allocator refuses the three bytes of \<open>params\<close> and accepts the
  one byte of \<open>data\<close>: the write of \<open>params\<close> fails, and \<open>ParseRawData\<close> goes on, calls
  \<^verbatim>\<open>__parse_raw_data\<close> with the descriptor 0 in place of the parameters and returns a
  result. The error of the first write is never looked at.
\<close>

theorem ParseRawData_masks_params_error:
  "fst (storeParams (picky_instance [''__parse_raw_data'']) [1, 2, 3]) =
     Inl (Error ''allocation refused'') \<and>
   ParseRawData (\<lambda>code. Inr (picky_instance [''__parse_raw_data''])) [] [1, 2, 3] [7] =
     Inr [7]"
  by (simp add: ParseRawData_def eval_defs parseOutput_cases [OF unpack_1_0])

text \<open>
  C10, at the same allocator and a module without \<^verbatim>\<open>__parse_raw_data\<close>: the write of
  \<open>params\<close> fails, and \<open>ParseRawData\<close> still reports the missing export.
\<close>

theorem ParseRawData_missing_export_after_failed_write:
  "fst (storeParams (picky_instance []) [1, 2, 3]) = Inl (Error ''allocation refused'') \<and>
   Exports (picky_instance []) ''__parse_raw_data'' = None \<and>
   ParseRawData (\<lambda>code. Inr (picky_instance [])) [] [1, 2, 3] [7] =
     Inl (Error ''__parse_raw_data not implemented'')"
  by (simp add: ParseRawData_def eval_defs)

subsection \<open>The name check\<close>

lemma Name_loop_None: "Name_loop IsPrint rs = None \<longleftrightarrow> (\<forall>ch\<in>set rs. IsPrint ch)"
  by (induction rs) auto

lemma Name_loop_Some:
  "Name_loop IsPrint rs = Some err \<longleftrightarrow>
     err = Error ''Invalid name character'' \<and> (\<exists>ch\<in>set rs. \<not> IsPrint ch)"
  by (induction rs) auto

text \<open>A buffer of bytes below \<open>0x80\<close> is iterated byte by byte.\<close>

lemma range_string_ascii: "\<forall>b\<in>set bs. b < 0x80 \<Longrightarrow> range_string bs = map uint bs"
  by (induction bs) auto

text \<open>
  The decoder consumes continuation bytes only, so a byte below \<open>0x80\<close> is never
  swallowed by a longer sequence: it always comes out as a character of its own.
\<close>

lemma decoderune_skips:
  assumes "decoderune (b # bs) = (r, n)" and "c \<in> set (take (n - 1) bs)"
  shows "0x80 \<le> c"
proof -
  from assms(2) obtain i where i: "i < n - 1" "i < length bs" "c = bs ! i"
    by (auto simp add: in_set_conv_nth)
  have "continuation ((b # bs) ! (Suc i))"
    using assms(1) i(1,2)
    by (auto simp add: decoderune_def Let_def less_Suc_eq numeral_3_eq_3 split: if_splits)
  then show ?thesis using i(3) by (simp add: continuation_def)
qed

lemma ascii_byte_is_rune: "b \<in> set bs \<Longrightarrow> b < 0x80 \<Longrightarrow> uint b \<in> set (range_string bs)"
proof (induction bs rule: range_string.induct)
  case 1
  then show ?case by simp
next
  case (2 b0 bs)
  show ?case
  proof (cases "b0 < 0x80")
    case True
    then show ?thesis using 2 by auto
  next
    case False
    obtain r n where d: "decoderune (b0 # bs) = (r, n)" by (cases "decoderune (b0 # bs)")
    have "b \<noteq> b0" using False 2(4) by auto
    then have "b \<in> set bs" using 2(3) by simp
    then have "b \<in> set (take (n - 1) bs) \<or> b \<in> set (drop (n - 1) bs)"
      by (metis Un_iff append_take_drop_id set_append)
    moreover have "b \<notin> set (take (n - 1) bs)"
      using decoderune_skips [OF d] 2(4) by (auto simp add: not_le [symmetric])
    ultimately have "b \<in> set (drop (n - 1) bs)" by simp
    then have "uint b \<in> set (range_string (drop (n - 1) bs))"
      using 2(2) [OF False d [symmetric]] 2(4) by simp
    then show ?thesis using False d by simp
  qed
qed

text \<open>
  C9. Let the guest's \<^verbatim>\<open>__name\<close> export return a descriptor that \<open>parseOutput\<close> reads as
  the buffer \<open>rawResult\<close>. If every character of the buffer is printable, \<open>Name\<close>
  returns the bytes of the buffer unchanged. If some character is not printable, \<open>Name\<close>
  fails with the error \<^verbatim>\<open>Invalid name character\<close>; in particular when the buffer holds a
  byte below \<open>0x80\<close> (an ASCII control character, say) that is not printable. The
  characters are those of Go's iteration over the string.
\<close>

theorem Name_printable_or_invalid:
  assumes "NewInstance code = Inr instance"
    and "Exports instance ''__name'' = Some fn"
    and "call instance fn [] = (Inr ptr, instance')"
    and "parseOutput instance' (ToI64 ptr) = Inr rawResult"
  shows "((\<forall>ch\<in>set (range_string rawResult). IsPrint ch) \<longrightarrow>
            Name NewInstance IsPrint code = Inr rawResult) \<and>
         ((\<exists>ch\<in>set (range_string rawResult). \<not> IsPrint ch) \<longrightarrow>
            Name NewInstance IsPrint code = Inl (Error ''Invalid name character'')) \<and>
         ((\<exists>b\<in>set rawResult. b < 0x80 \<and> \<not> IsPrint (uint b)) \<longrightarrow>
            Name NewInstance IsPrint code = Inl (Error ''Invalid name character''))"
proof -
  have run: "Name NewInstance IsPrint code =
      (case Name_loop IsPrint (range_string rawResult) of
         Some err \<Rightarrow> Inl err
       | None \<Rightarrow> Inr rawResult)"
    using assms by (simp add: Name_def)
  have good: "(\<forall>ch\<in>set (range_string rawResult). IsPrint ch) \<longrightarrow>
            Name NewInstance IsPrint code = Inr rawResult"
    by (simp add: run Name_loop_None [symmetric])
  have bad: "(\<exists>ch\<in>set (range_string rawResult). \<not> IsPrint ch) \<longrightarrow>
            Name NewInstance IsPrint code = Inl (Error ''Invalid name character'')"
  proof
    assume "\<exists>ch\<in>set (range_string rawResult). \<not> IsPrint ch"
    then have "Name_loop IsPrint (range_string rawResult) =
        Some (Error ''Invalid name character'')"
      by (simp add: Name_loop_Some)
    then show "Name NewInstance IsPrint code = Inl (Error ''Invalid name character'')"
      by (simp add: run)
  qed
  have "(\<exists>b\<in>set rawResult. b < 0x80 \<and> \<not> IsPrint (uint b)) \<longrightarrow>
      (\<exists>ch\<in>set (range_string rawResult). \<not> IsPrint ch)"
    using ascii_byte_is_rune by blast
  with good bad show ?thesis by blast
qed

text \<open>
  The name \<^verbatim>\<open>abc\<close> is returned as it is; a name with a line feed in it is refused.
\<close>

theorem Name_printable_or_invalid_witness:
  "Name (\<lambda>code. Inr (name_instance 0x300000000 [0x61, 0x62, 0x63])) ascii_print [] =
     Inr [0x61, 0x62, 0x63] \<and>
   Name (\<lambda>code. Inr (name_instance 0x300000000 [0x61, 0x0A, 0x62])) ascii_print [] =
     Inl (Error ''Invalid name character'')"
proof -
  let ?fn = "\<lambda>args g mem. (Inr 0x300000000, g, mem) :: (string + Value) \<times> unit \<times> byte list"
  have ex: "\<And>m. Exports (name_instance 0x300000000 m) ''__name'' = Some ?fn"
    by (simp add: name_instance_def)
  have c: "\<And>m. call (name_instance 0x300000000 m) ?fn [] =
      (Inr 0x300000000, name_instance 0x300000000 m)"
    by (simp add: name_instance_def call_def)
  have p1: "parseOutput (name_instance 0x300000000 [0x61, 0x62, 0x63]) (ToI64 0x300000000) =
      Inr [0x61, 0x62, 0x63]"
    by (simp add: ToI64_def parseOutput_cases [OF unpack_3_0] name_instance_def)
  have p2: "parseOutput (name_instance 0x300000000 [0x61, 0x0A, 0x62]) (ToI64 0x300000000) =
      Inr [0x61, 0x0A, 0x62]"
    by (simp add: ToI64_def parseOutput_cases [OF unpack_3_0] name_instance_def)
  from Name_printable_or_invalid
      [where NewInstance = "\<lambda>code. Inr (name_instance 0x300000000 [0x61, 0x62, 0x63])"
        and code = "[]" and IsPrint = ascii_print, OF _ ex c p1]
    Name_printable_or_invalid
      [where NewInstance = "\<lambda>code. Inr (name_instance 0x300000000 [0x61, 0x0A, 0x62])"
        and code = "[]" and IsPrint = ascii_print, OF _ ex c p2]
  show ?thesis by (simp add: ascii_print_def)
qed

text \<open>
  Bytes that are not valid UTF-8 are iterated as the replacement character \<open>0xFFFD\<close>,
  one per byte: whether such a name passes is up to \<^verbatim>\<open>unicode.IsPrint\<close> at \<open>0xFFFD\<close>.
\<close>

lemma range_string_invalid: "range_string [0x61, 0xFF, 0xC0, 0x80] = [0x61, 0xFFFD, 0xFFFD, 0xFFFD]"
  by (simp add: decoderune_def continuation_def)

subsection \<open>The array writer: failure and the outer descriptor\<close>

text \<open>The loop over a concatenation runs the first part, then the second.\<close>

lemma allocate_loop_append:
  "allocate_loop instance base cap idx (pre @ rest) =
     (case allocate_loop instance base cap idx pre of
        (None, i) \<Rightarrow> allocate_loop i base cap (idx + length pre) rest
      | (Some err, i) \<Rightarrow> (Some err, i))"
proof (induction pre arbitrary: "instance" idx)
  case Nil
  show ?case by simp
next
  case (Cons each pre)
  show ?case
    by (auto simp add: Cons.IH split: prod.splits sum.splits option.splits)
qed

text \<open>
  C6. Let the table be allocated, the elements before \<open>each\<close> be written, and the write
  of \<open>each\<close> fail with \<open>err\<close>, be it the allocator's error, the failed bounds check or
  a panic. Then the whole operation fails with \<open>err\<close>: no outer descriptor is returned,
  whatever elements follow.
\<close>

theorem allocate_fails_atomically:
  assumes "Exports instance ''__allocate'' = Some fn"
    and "call instance fn [of_nat (8 * length (pre @ each # post))] = (Inr res, instance1)"
    and "slice_from (Memory instance1) (sint (ToI32 res)) = Inr mem"
    and "8 * length (pre @ each # post) \<le> length mem"
    and "allocate_loop instance1 (nat (sint (ToI32 res))) (length mem) 0 pre = (None, instance2)"
    and "allocateInner instance2 each = (Inl err, instance3)"
  shows "allocate instance (pre @ each # post) = (Inl err, instance3)"
proof -
  have "allocate_loop instance1 (nat (sint (ToI32 res))) (length mem) 0 (pre @ each # post) =
      (Some err, instance3)"
    using assms(5,6) by (simp add: allocate_loop_append)
  moreover have "\<not> length mem < 8 * length (pre @ each # post)" using assms(4) by simp
  ultimately show ?thesis
    using assms(1,2,3) by (simp add: allocate_def Let_def del: length_append)
qed

lemma bump_17_table:
  "call (bump_instance [] 17) bump_allocate
       [of_nat (8 * length ([[1]] @ [2] # ([] :: byte list list)))] =
     (Inr 0, bump_instance [] 17\<lparr>Memory := replicate 17 0, Guest := 16\<rparr>)"
  by (simp add: eval_defs)

lemma bump_17_slice:
  "slice_from (Memory (bump_instance [] 17\<lparr>Memory := replicate 17 0, Guest := 16\<rparr>))
       (sint (ToI32 0)) = Inr (replicate 17 0)"
  by (simp add: eval_defs)

lemma bump_17_first:
  "allocate_loop (bump_instance [] 17\<lparr>Memory := replicate 17 0, Guest := 16\<rparr>)
       (nat (sint (ToI32 0))) (length (replicate 17 (0 :: byte))) 0 [[1]] =
     (None, bump_instance [] 17
        \<lparr>Memory := [0x10, 0, 0, 0, 1, 0, 0, 0] @ replicate 8 0 @ [1], Guest := 17\<rparr>)"
  by (simp add: eval_defs)

lemma bump_17_second:
  "allocateInner (bump_instance [] 17
        \<lparr>Memory := [0x10, 0, 0, 0, 1, 0, 0, 0] @ replicate 8 0 @ [1], Guest := 17\<rparr>) [2] =
     (Inl (Error ''out of memory''), bump_instance [] 17
        \<lparr>Memory := [0x10, 0, 0, 0, 1, 0, 0, 0] @ replicate 8 0 @ [1], Guest := 17\<rparr>)"
  by (simp add: eval_defs)

text \<open>
  Two one-byte buffers and 17 bytes of memory: the table takes 16, the first buffer the
  last byte, and the second write fails. The operation returns the allocator's error.
\<close>

theorem allocate_fails_atomically_witness:
  "allocate (bump_instance [] 17) ([[1]] @ [2] # []) =
     (Inl (Error ''out of memory''),
      bump_instance [] 17
        \<lparr>Memory := [0x10, 0, 0, 0, 1, 0, 0, 0] @ replicate 8 0 @ [1], Guest := 17\<rparr>)"
proof -
  have ex: "Exports (bump_instance [] 17) ''__allocate'' = Some bump_allocate"
    by (simp add: bump_instance_def)
  have fits: "8 * length ([[1]] @ [2] # ([] :: byte list list)) \<le>
      length (replicate 17 (0 :: byte))"
    by simp
  from allocate_fails_atomically
    [OF ex bump_17_table bump_17_slice fits bump_17_first bump_17_second]
  show ?thesis .
qed

text \<open>What a successful \<open>allocate\<close> went through.\<close>

lemma allocate_Inr:
  assumes "allocate instance data = (Inr d, i')"
  obtains fn res i1 where
    "Exports instance ''__allocate'' = Some fn"
    "call instance fn [of_nat (8 * length data)] = (Inr res, i1)"
    "0 \<le> sint (ToI32 res)"
    "nat (sint (ToI32 res)) + 8 * length data \<le> length (Memory i1)"
    "allocate_loop i1 (nat (sint (ToI32 res)))
       (length (Memory i1) - nat (sint (ToI32 res))) 0 data = (None, i')"
    "d = pack (of_nat (length data)) (ToI32 res)"
proof -
  from assms obtain fn where fn: "Exports instance ''__allocate'' = Some fn"
    by (cases "Exports instance ''__allocate''") (simp_all add: allocate_def)
  obtain r1 i1 where c: "call instance fn [of_nat (8 * length data)] = (r1, i1)"
    by (cases "call instance fn [of_nat (8 * length data)]")
  from assms fn c obtain res where res: "r1 = Inr res"
    by (cases r1) (simp_all add: allocate_def)
  let ?ptr = "ToI32 res"
  from assms fn c res obtain mem where mem: "slice_from (Memory i1) (sint ?ptr) = Inr mem"
    by (cases "slice_from (Memory i1) (sint ?ptr)") (simp_all add: allocate_def Let_def)
  then have nonneg: "0 \<le> sint ?ptr" and inside: "sint ?ptr \<le> int (length (Memory i1))"
    and memeq: "mem = drop (nat (sint ?ptr)) (Memory i1)"
    by (auto simp add: slice_from_def split: if_splits)
  from assms fn c res mem have fits: "\<not> length mem < 8 * length data"
    by (auto simp add: allocate_def Let_def split: if_splits)
  obtain r2 i2 where l: "allocate_loop i1 (nat (sint ?ptr)) (length mem) 0 data = (r2, i2)"
    by (cases "allocate_loop i1 (nat (sint ?ptr)) (length mem) 0 data")
  from assms fn c res mem fits l
  have "r2 = None" "i2 = i'" "d = pack (of_nat (length data)) ?ptr"
    by (auto simp add: allocate_def Let_def split: option.splits)
  moreover have "length mem = length (Memory i1) - nat (sint ?ptr)" using memeq by simp
  moreover have "nat (sint ?ptr) + 8 * length data \<le> length (Memory i1)"
    using fits memeq nonneg inside by simp
  ultimately show ?thesis using that [OF fn] c res nonneg l by simp
qed

lemma unat_of_nat_64: "n < 2 ^ 64 \<Longrightarrow> unat (of_nat n :: 64 word) = n"
  by (simp add: unsigned_of_nat take_bit_nat_eq_self)

lemma unat_of_nat_64_small: "n < 2 ^ 32 \<Longrightarrow> unat (of_nat n :: 64 word) = n"
proof -
  assume "n < 2 ^ 32"
  then have "n < 2 ^ 64" by (rule less_trans) simp
  then show ?thesis by (rule unat_of_nat_64)
qed

lemma drop_bit_pack:
  assumes "n < 2 ^ 32"
  shows "drop_bit 32 (push_bit 32 (of_nat n :: 64 word) OR ucast (ptr :: 32 word)) = of_nat n"
proof (rule bit_word_eqI)
  fix j :: nat
  assume j: "j < LENGTH(64)"
  have low: "\<not> bit (ucast ptr :: 64 word) (32 + j)"
    by (auto simp add: bit_word_ucast_iff dest: bit_imp_le_length)
  have "bit (drop_bit 32 (push_bit 32 (of_nat n :: 64 word) OR ucast ptr)) j \<longleftrightarrow>
      bit (push_bit 32 (of_nat n :: 64 word)) (32 + j)"
    using low by (simp add: bit_drop_bit_eq bit_or_iff)
  also have "\<dots> \<longleftrightarrow> 32 + j < 64 \<and> bit (of_nat n :: 64 word) j"
    by (auto simp add: bit_push_bit_iff dest: bit_imp_le_length)
  also have "\<dots> \<longleftrightarrow> bit (of_nat n :: 64 word) j"
  proof (cases "j < 32")
    case True
    then show ?thesis by simp
  next
    case False
    then have "\<not> bit n j" using assms by (intro nat_high_bits_clear [of n 32]) simp_all
    then show ?thesis by (simp add: bit_simps)
  qed
  finally show "bit (drop_bit 32 (push_bit 32 (of_nat n :: 64 word) OR ucast ptr)) j \<longleftrightarrow>
      bit (of_nat n :: 64 word) j" .
qed

text \<open>The fields of a packed descriptor, read as the wire format has them.\<close>

lemma pack_length_field:
  assumes "0 \<le> sint ptr" and "n < 2 ^ 32"
  shows "descriptor_length (pack (of_nat n) ptr) = n"
proof -
  have "pack (of_nat n) ptr = push_bit 32 (of_nat n :: 64 word) OR ucast ptr"
    by (simp only: pack_def scast_nonneg [OF assms(1)])
  then have "drop_bit 32 (pack (of_nat n) ptr) = of_nat n"
    by (simp only: drop_bit_pack [OF assms(2)])
  then show ?thesis
    by (simp only: descriptor_length_def unat_of_nat_64_small [OF assms(2)])
qed

lemma unat_ucast_32_64:
  "0 \<le> sint (ptr :: 32 word) \<Longrightarrow> unat (ucast ptr :: 64 word) = nat (sint ptr)"
proof -
  assume "0 \<le> sint ptr"
  then have "sint ptr = uint ptr" by (rule sint_eq_uint_32)
  moreover have "uint (ucast ptr :: 64 word) = uint ptr" by (simp add: uint_up_ucast is_up)
  ultimately have "nat (uint (ucast ptr :: 64 word)) = nat (sint ptr)" by simp
  then show ?thesis by (simp only: unat_eq_nat_uint)
qed

lemma pack_offset_field:
  assumes "0 \<le> sint ptr"
  shows "descriptor_offset (pack sz ptr) = nat (sint ptr)"
proof -
  have "take_bit 32 (pack sz ptr) = pack sz ptr AND mask 32"
    by (rule take_bit_eq_mask)
  also have "\<dots> = ucast ptr"
    unfolding pack_def using assms by (rule pack_low_half)
  finally show ?thesis
    by (simp only: descriptor_offset_def unat_ucast_32_64 [OF assms])
qed

lemma bump_64_array:
  "allocate (bump_instance [] 64) [[1, 2], [3]] =
     (Inr 0x200000000,
      \<lparr>Exports = Exports (bump_instance [] 64),
       Memory = [0x10, 0, 0, 0, 2, 0, 0, 0, 0x12, 0, 0, 0, 1, 0, 0, 0, 1, 2, 3] @ replicate 45 0,
       Guest = 19\<rparr>)"
  by (simp add: eval_defs)

subsection \<open>The array writer: the table and its elements\<close>

lemma byte_step: "ucast (ucast w :: 8 word) OR push_bit 8 (drop_bit 8 w) = (w :: 64 word)"
proof (rule bit_word_eqI)
  fix n :: nat
  assume n: "n < LENGTH(64)"
  show "bit (ucast (ucast w :: 8 word) OR push_bit 8 (drop_bit 8 w)) n \<longleftrightarrow> bit w n"
  proof (cases "n < 8")
    case True
    then show ?thesis using n by (simp add: bit_simps)
  next
    case False
    then have "8 + (n - 8) = n" by simp
    then show ?thesis using n False by (simp add: bit_simps)
  qed
qed

lemma byte_top: "ucast (ucast (drop_bit 56 v) :: 8 word) = (drop_bit 56 v :: 64 word)"
  apply (rule bit_word_eqI)
  apply (auto simp add: bit_simps dest: bit_imp_le_length)
  done

text \<open>Decoding the eight bytes gives the value back.\<close>

lemma Uint64_PutUint64: "Uint64 (PutUint64 v) = v"
proof -
  have s7: "ucast (ucast (drop_bit 48 v) :: 8 word) OR push_bit 8 (drop_bit 56 v) = drop_bit 48 v"
    using byte_step [of "drop_bit 48 v"] by (simp add: drop_bit_drop_bit)
  have s6: "ucast (ucast (drop_bit 40 v) :: 8 word) OR push_bit 8 (drop_bit 48 v) = drop_bit 40 v"
    using byte_step [of "drop_bit 40 v"] by (simp add: drop_bit_drop_bit)
  have s5: "ucast (ucast (drop_bit 32 v) :: 8 word) OR push_bit 8 (drop_bit 40 v) = drop_bit 32 v"
    using byte_step [of "drop_bit 32 v"] by (simp add: drop_bit_drop_bit)
  have s4: "ucast (ucast (drop_bit 24 v) :: 8 word) OR push_bit 8 (drop_bit 32 v) = drop_bit 24 v"
    using byte_step [of "drop_bit 24 v"] by (simp add: drop_bit_drop_bit)
  have s3: "ucast (ucast (drop_bit 16 v) :: 8 word) OR push_bit 8 (drop_bit 24 v) = drop_bit 16 v"
    using byte_step [of "drop_bit 16 v"] by (simp add: drop_bit_drop_bit)
  have s2: "ucast (ucast (drop_bit 8 v) :: 8 word) OR push_bit 8 (drop_bit 16 v) = drop_bit 8 v"
    using byte_step [of "drop_bit 8 v"] by (simp add: drop_bit_drop_bit)
  have s1: "ucast (ucast v :: 8 word) OR push_bit 8 (drop_bit 8 v) = v"
    by (rule byte_step)
  have s8: "ucast (ucast (drop_bit 56 v) :: 8 word) OR push_bit 8 (0 :: 64 word) = drop_bit 56 v"
    by (simp add: byte_top)
  show ?thesis
    by (simp only: PutUint64_def Uint64.simps s8 s7 s6 s5 s4 s3 s2 s1)
qed

lemma length_PutUint64: "length (PutUint64 v) = 8"
  by (simp add: PutUint64_def)

text \<open>Overwriting a range leaves the bytes outside it alone and holds the new bytes.\<close>

lemma nth_splice_outside:
  "off + length bs \<le> length M \<Longrightarrow> a < off \<or> off + length bs \<le> a \<Longrightarrow> a < length M \<Longrightarrow>
   (take off M @ bs @ drop (off + length bs) M) ! a = M ! a"
  by (auto simp add: nth_append min_def)

lemma window_splice:
  "off + length bs \<le> length M \<Longrightarrow>
   take (length bs) (drop off (take off M @ bs @ drop (off + length bs) M)) = bs"
  by simp

lemma window_cong:
  assumes "off + n \<le> length A" and "off + n \<le> length B"
    and "\<And>a. off \<le> a \<Longrightarrow> a < off + n \<Longrightarrow> A ! a = B ! a"
  shows "take n (drop off A) = take n (drop off B)"
proof (rule nth_equalityI)
  show "length (take n (drop off A)) = length (take n (drop off B))"
    using assms(1,2) by simp
next
  fix i
  assume "i < length (take n (drop off A))"
  then have "i < n" by simp
  then show "take n (drop off A) ! i = take n (drop off B) ! i"
    using assms by simp
qed

text \<open>What a successful write of one buffer went through.\<close>

lemma allocateInner_Inr:
  assumes "allocateInner instance data = (Inr loc, i1)"
  obtains fn res g1 m1 where
    "Exports instance ''__allocate'' = Some fn"
    "fn [of_nat (length data)] (Guest instance) (Memory instance) = (Inr res, g1, m1)"
    "0 \<le> sint (ToI32 res)"
    "nat (sint (ToI32 res)) + length data \<le> length m1"
    "loc = pack (of_nat (length data)) (ToI32 res)"
    "i1 = instance\<lparr>Memory := take (nat (sint (ToI32 res))) m1 @ data @
                   drop (nat (sint (ToI32 res)) + length data) m1,
                Guest := g1\<rparr>"
proof -
  from assms obtain fn where fn: "Exports instance ''__allocate'' = Some fn"
    by (cases "Exports instance ''__allocate''") (simp_all add: allocateInner_def)
  obtain r g1 m1 where
    c: "fn [of_nat (length data)] (Guest instance) (Memory instance) = (r, g1, m1)"
    by (cases "fn [of_nat (length data)] (Guest instance) (Memory instance)")
  from assms fn c obtain res where res: "r = Inr res"
    by (cases r) (simp_all add: allocateInner_def call_def)
  let ?ptr = "ToI32 res"
  from assms fn c res obtain mem where mem: "slice_from m1 (sint ?ptr) = Inr mem"
    by (cases "slice_from m1 (sint ?ptr)") (simp_all add: allocateInner_def call_def Let_def)
  then have nonneg: "0 \<le> sint ?ptr" and inside: "sint ?ptr \<le> int (length m1)"
    and memeq: "mem = drop (nat (sint ?ptr)) m1"
    by (auto simp add: slice_from_def split: if_splits)
  from assms fn c res mem have fits: "\<not> length mem < length data"
    by (auto simp add: allocateInner_def call_def Let_def split: if_splits)
  then have bound: "nat (sint ?ptr) + length data \<le> length m1"
    using memeq nonneg inside by simp
  from allocateInner_success [OF fn] c res nonneg bound assms
  have "loc = pack (of_nat (length data)) ?ptr"
    and "i1 = instance\<lparr>Memory := take (nat (sint ?ptr)) m1 @ data @
                   drop (nat (sint ?ptr) + length data) m1, Guest := g1\<rparr>"
    by simp_all
  then show ?thesis using that [OF fn] c res nonneg bound by simp
qed

text \<open>One round of the loop that went through.\<close>

lemma allocate_loop_step:
  assumes "allocate_loop instance base cap idx (x # rest) = (None, instance')"
  obtains loc i1 where
    "allocateInner instance x = (Inr loc, i1)"
    "base + 8 * idx + 8 \<le> length (Memory i1)"
    "allocate_loop
       (i1\<lparr>Memory := take (base + 8 * idx) (Memory i1) @ PutUint64 loc @
          drop (base + 8 * idx + 8) (Memory i1)\<rparr>) base cap (idx + 1) rest = (None, instance')"
proof -
  obtain r1 i1 where ai: "allocateInner instance x = (r1, i1)"
    by (cases "allocateInner instance x")
  from assms ai obtain loc where "r1 = Inr loc" by (cases r1) simp_all
  with ai have ai': "allocateInner instance x = (Inr loc, i1)" by simp
  from assms ai' have inside: "base + 8 * idx + 8 \<le> length (Memory i1)"
    by (auto split: if_splits)
  from assms ai' inside have "allocate_loop
       (i1\<lparr>Memory := take (base + 8 * idx) (Memory i1) @ PutUint64 loc @
          drop (base + 8 * idx + 8) (Memory i1)\<rparr>) base cap (idx + 1) rest = (None, instance')"
    by (auto split: if_splits)
  with ai' inside show ?thesis by (rule that)
qed

text \<open>
  After a loop that went through, the eight bytes of every table entry of the run lie
  inside the memory, whatever the allocator does.
\<close>

lemma allocate_loop_length:
  "allocate_loop instance base cap idx xs = (None, instance') \<Longrightarrow> xs \<noteq> [] \<Longrightarrow>
   base + 8 * (idx + length xs) \<le> length (Memory instance')"
proof (induction xs arbitrary: "instance" idx)
  case Nil
  then show ?case by simp
next
  case (Cons x rest)
  from Cons.prems(1) obtain loc i1 where
    inside: "base + 8 * idx + 8 \<le> length (Memory i1)" and
    rec: "allocate_loop
       (i1\<lparr>Memory := take (base + 8 * idx) (Memory i1) @ PutUint64 loc @
          drop (base + 8 * idx + 8) (Memory i1)\<rparr>) base cap (idx + 1) rest = (None, instance')"
    by (rule allocate_loop_step)
  show ?case
  proof (cases "rest = []")
    case True
    then show ?thesis using rec inside by (auto simp add: length_PutUint64)
  next
    case False
    from Cons.IH [OF rec False] show ?thesis by simp
  qed
qed

subsection \<open>The array writer: the length field and the size of the table\<close>

text \<open>
  C5, amended. For an array of fewer than \<open>2^31\<close> buffers on which \<open>allocate\<close> succeeds,
  the length field of the outer descriptor is the number of buffers, both as \<open>unpack\<close>
  reads it and as the wire format has it. Eight times that number is the size of the
  table: it is what \<open>allocate\<close> requested of \<^verbatim>\<open>__allocate\<close>, whose answer is the
  descriptor's offset field, and that many bytes from this offset lie inside the memory,
  both when the allocator returns and when \<open>allocate\<close> returns.
\<close>

theorem allocate_descriptor_length:
  assumes "allocate instance data = (Inr d, instance')" and "length data < 2 ^ 31"
  shows "fst (unpack d) = of_nat (length data) \<and>
         sint (fst (unpack d)) = int (length data) \<and>
         descriptor_length d = length data \<and>
         (\<exists>fn res instance1.
            Exports instance ''__allocate'' = Some fn \<and>
            call instance fn [of_nat (8 * length data)] = (Inr res, instance1) \<and>
            descriptor_offset d = nat (sint (ToI32 res)) \<and>
            descriptor_offset d + 8 * length data \<le> length (Memory instance1)) \<and>
         descriptor_offset d + 8 * length data \<le> length (Memory instance')"
proof -
  from assms(1) obtain fn res i1 where
    fn: "Exports instance ''__allocate'' = Some fn" and
    c: "call instance fn [of_nat (8 * length data)] = (Inr res, i1)" and
    nonneg: "0 \<le> sint (ToI32 res)" and
    room: "nat (sint (ToI32 res)) + 8 * length data \<le> length (Memory i1)" and
    loop: "allocate_loop i1 (nat (sint (ToI32 res)))
        (length (Memory i1) - nat (sint (ToI32 res))) 0 data = (None, instance')" and
    d: "d = pack (of_nat (length data)) (ToI32 res)"
    by (rule allocate_Inr)
  have "unpack d = (of_nat (length data), ucast (ToI32 res))"
    unfolding d using nonneg assms(2) by (rule unpack_pack_of_nat)
  then have field: "fst (unpack d) = of_nat (length data)" by simp
  have "sint (of_nat (length data) :: 64 word) = int (length data)"
    using assms(2) by (simp add: sint_of_nat_64)
  then have signed: "sint (fst (unpack d)) = int (length data)" by (simp only: field)
  have "length data < 2 ^ 32" using assms(2) by (rule less_trans) simp
  then have len: "descriptor_length d = length data"
    unfolding d using nonneg by (intro pack_length_field)
  have off: "descriptor_offset d = nat (sint (ToI32 res))"
    unfolding d using nonneg by (rule pack_offset_field)
  have requested: "\<exists>fn res instance1.
      Exports instance ''__allocate'' = Some fn \<and>
      call instance fn [of_nat (8 * length data)] = (Inr res, instance1) \<and>
      descriptor_offset d = nat (sint (ToI32 res)) \<and>
      descriptor_offset d + 8 * length data \<le> length (Memory instance1)"
    using fn c off room by (intro exI [of _ fn] exI [of _ res] exI [of _ i1]) simp
  have final: "descriptor_offset d + 8 * length data \<le> length (Memory instance')"
  proof (cases "data = []")
    case True
    then have "instance' = i1" using loop by simp
    then show ?thesis using room off by simp
  next
    case False
    from allocate_loop_length [OF loop False] show ?thesis by (simp add: off)
  qed
  from field signed len requested final show ?thesis by (intro conjI)
qed

text \<open>
  Two buffers through the bump allocator over 64 bytes: the length field is 2, the table
  is at offset 0 and its 16 bytes lie inside the memory.
\<close>

theorem allocate_descriptor_length_witness:
  "fst (allocate (bump_instance [] 64) [[1, 2], [3]]) = Inr 0x200000000 \<and>
   length [[1, 2], [3 :: byte]] < 2 ^ 31 \<and>
   fst (unpack 0x200000000) = of_nat (length [[1, 2], [3 :: byte]]) \<and>
   descriptor_length 0x200000000 = length [[1, 2], [3 :: byte]] \<and>
   descriptor_offset 0x200000000 + 8 * length [[1, 2], [3 :: byte]] \<le>
     length (Memory (snd (allocate (bump_instance [] 64) [[1, 2], [3]])))"
proof -
  have small: "length [[1, 2], [3 :: byte]] < 2 ^ 31" by simp
  from allocate_descriptor_length [OF bump_64_array small] bump_64_array small
  show ?thesis by simp
qed

text \<open>
  C5 as stated fails there: the table of the two buffers is 16 bytes long and the length
  field of the outer descriptor is 2.
\<close>

theorem allocate_descriptor_length_counterexample:
  "fst (allocate (bump_instance [] 64) [[1, 2], [3]]) = Inr 0x200000000 \<and>
   descriptor_length 0x200000000 = 2 \<and>
   fst (unpack 0x200000000) = 2 \<and>
   descriptor_length 0x200000000 \<noteq> 8 * length [[1, 2], [3 :: byte]]"
  by (simp add: bump_64_array descriptor_length_def unpack_def)

subsection \<open>The array writer: reading the array back\<close>

text \<open>
  One buffer written through a fresh allocator: the block holds the buffer, the live set
  and the memory have grown, and no live byte has changed. The allocator is asked for
  \<open>length x\<close> as a 64-bit integer, hence the bound where the block's extent matters.
\<close>

lemma allocateInner_fresh:
  assumes fresh: "fresh_allocator fn live"
    and ex: "Exports instance ''__allocate'' = Some fn"
    and inv: "live (Guest instance) \<subseteq> {..<length (Memory instance)}"
    and ai: "allocateInner instance x = (Inr loc, i1)"
  obtains ptr where
    "0 \<le> sint ptr"
    "loc = pack (of_nat (length x)) ptr"
    "nat (sint ptr) + length x \<le> length (Memory i1)"
    "take (length x) (drop (nat (sint ptr)) (Memory i1)) = x"
    "Exports i1 = Exports instance"
    "live (Guest instance) \<subseteq> live (Guest i1)"
    "live (Guest i1) \<subseteq> {..<length (Memory i1)}"
    "length (Memory instance) \<le> length (Memory i1)"
    "length x < 2 ^ 64 \<longrightarrow>
       {nat (sint ptr)..<nat (sint ptr) + length x} \<inter> live (Guest instance) = {}"
    "length x < 2 ^ 64 \<longrightarrow>
       {nat (sint ptr)..<nat (sint ptr) + length x} \<subseteq> live (Guest i1)"
    "length x < 2 ^ 64 \<longrightarrow>
       (\<forall>a\<in>live (Guest instance). Memory i1 ! a = Memory instance ! a)"
proof -
  let ?g = "Guest instance" and ?m = "Memory instance"
  from ai obtain fn' res g1 m1 where
    fn': "Exports instance ''__allocate'' = Some fn'" and
    c: "fn' [of_nat (length x)] ?g ?m = (Inr res, g1, m1)" and
    nonneg: "0 \<le> sint (ToI32 res)" and
    bound: "nat (sint (ToI32 res)) + length x \<le> length m1" and
    loc: "loc = pack (of_nat (length x)) (ToI32 res)" and
    i1: "i1 = instance\<lparr>Memory := take (nat (sint (ToI32 res))) m1 @ x @
                   drop (nat (sint (ToI32 res)) + length x) m1, Guest := g1\<rparr>"
    by (rule allocateInner_Inr)
  define p where "p = nat (sint (ToI32 res))"
  define M1 where "M1 = take p m1 @ x @ drop (p + length x) m1"
  have fn_eq: "fn' = fn" using fn' ex by simp
  have spec: "{p..<p + unat (of_nat (length x) :: 64 word)} \<inter> live ?g = {} \<and>
      live ?g \<union> {p..<p + unat (of_nat (length x) :: 64 word)} \<subseteq> live g1 \<and>
      live g1 \<subseteq> {..<length m1} \<and> length ?m \<le> length m1 \<and>
      (\<forall>a\<in>live ?g. m1 ! a = ?m ! a)"
    using fresh inv c fn_eq unfolding fresh_allocator_def p_def by blast
  have i1': "i1 = instance\<lparr>Memory := M1, Guest := g1\<rparr>" using i1 by (simp add: M1_def p_def)
  have lenM1: "length M1 = length m1" using bound by (simp add: M1_def p_def)
  have content: "take (length x) (drop p M1) = x"
    unfolding M1_def using bound window_splice [of p x m1] by (simp add: p_def)
  have disjoint: "{p..<p + length x} \<inter> live ?g = {}"
    and block: "{p..<p + length x} \<subseteq> live g1"
    and frame: "\<forall>a\<in>live ?g. M1 ! a = ?m ! a" if "length x < 2 ^ 64"
  proof -
    have n: "unat (of_nat (length x) :: 64 word) = length x"
      using that by (rule unat_of_nat_64)
    show d: "{p..<p + length x} \<inter> live ?g = {}" using spec by (simp add: n)
    show "{p..<p + length x} \<subseteq> live g1" using spec by (simp add: n)
    show "\<forall>a\<in>live ?g. M1 ! a = ?m ! a"
    proof
      fix a
      assume a: "a \<in> live ?g"
      then have "a \<notin> {p..<p + length x}" using d by blast
      then have out: "a < p \<or> p + length x \<le> a" by auto
      have "a < length m1" using a inv spec by fastforce
      with out have "M1 ! a = m1 ! a"
        unfolding M1_def using bound nth_splice_outside [of p x m1 a] by (simp add: p_def)
      also have "\<dots> = ?m ! a" using spec a by blast
      finally show "M1 ! a = ?m ! a" .
    qed
  qed
  show ?thesis
  proof (rule that [of "ToI32 res"])
    show "0 \<le> sint (ToI32 res)" by (rule nonneg)
    show "loc = pack (of_nat (length x)) (ToI32 res)" by (rule loc)
    show "nat (sint (ToI32 res)) + length x \<le> length (Memory i1)"
      using bound lenM1 by (simp add: i1')
    show "take (length x) (drop (nat (sint (ToI32 res))) (Memory i1)) = x"
      using content by (simp add: i1' p_def)
    show "Exports i1 = Exports instance" by (simp add: i1')
    show "live (Guest instance) \<subseteq> live (Guest i1)" using spec by (simp add: i1')
    show "live (Guest i1) \<subseteq> {..<length (Memory i1)}" using spec lenM1 by (simp add: i1')
    show "length (Memory instance) \<le> length (Memory i1)" using spec lenM1 by (simp add: i1')
    show "length x < 2 ^ 64 \<longrightarrow>
        {nat (sint (ToI32 res))..<nat (sint (ToI32 res)) + length x} \<inter> live (Guest instance) = {}"
      using disjoint by (simp add: p_def)
    show "length x < 2 ^ 64 \<longrightarrow>
        {nat (sint (ToI32 res))..<nat (sint (ToI32 res)) + length x} \<subseteq> live (Guest i1)"
      using block by (simp add: p_def i1')
    show "length x < 2 ^ 64 \<longrightarrow>
        (\<forall>a\<in>live (Guest instance). Memory i1 ! a = Memory instance ! a)"
      using frame by (simp add: i1')
  qed
qed

text \<open>Through the loop the live set and the memory only grow.\<close>

lemma allocate_loop_grows:
  assumes fresh: "fresh_allocator fn live"
  shows "allocate_loop instance base cap idx xs = (None, instance') \<Longrightarrow>
     Exports instance ''__allocate'' = Some fn \<Longrightarrow>
     live (Guest instance) \<subseteq> {..<length (Memory instance)} \<Longrightarrow>
       live (Guest instance) \<subseteq> live (Guest instance') \<and>
       live (Guest instance') \<subseteq> {..<length (Memory instance')} \<and>
       length (Memory instance) \<le> length (Memory instance')"
proof (induction xs arbitrary: "instance" idx)
  case Nil
  then show ?case by simp
next
  case (Cons x rest)
  from Cons.prems(1) obtain loc i1 where
    ai: "allocateInner instance x = (Inr loc, i1)" and
    inside: "base + 8 * idx + 8 \<le> length (Memory i1)" and
    rec: "allocate_loop
       (i1\<lparr>Memory := take (base + 8 * idx) (Memory i1) @ PutUint64 loc @
          drop (base + 8 * idx + 8) (Memory i1)\<rparr>) base cap (idx + 1) rest = (None, instance')"
      (is "allocate_loop ?i2 _ _ _ _ = _")
    by (rule allocate_loop_step)
  from fresh Cons.prems(2,3) ai obtain ptr where
    ex1: "Exports i1 = Exports instance" and
    sub: "live (Guest instance) \<subseteq> live (Guest i1)" and
    in1: "live (Guest i1) \<subseteq> {..<length (Memory i1)}" and
    grow: "length (Memory instance) \<le> length (Memory i1)"
    by (rule allocateInner_fresh)
  have len2: "length (Memory ?i2) = length (Memory i1)"
    using inside by (simp add: length_PutUint64)
  have "live (Guest ?i2) \<subseteq> live (Guest instance') \<and>
       live (Guest instance') \<subseteq> {..<length (Memory instance')} \<and>
       length (Memory ?i2) \<le> length (Memory instance')"
  proof (rule Cons.IH [OF rec])
    show "Exports ?i2 ''__allocate'' = Some fn" using ex1 Cons.prems(2) by simp
    show "live (Guest ?i2) \<subseteq> {..<length (Memory ?i2)}" using in1 len2 by simp
  qed
  then show ?case using sub grow len2 by auto
qed

text \<open>
  Sizes. When some live address \<open>base\<close> exists at the start and the final memory ends
  within \<open>2^32\<close> bytes, every buffer written by the loop is shorter than \<open>2^32\<close>
  bytes: its block lies in the memory and misses \<open>base\<close>.
\<close>

lemma allocate_loop_sizes:
  assumes fresh: "fresh_allocator fn live"
  shows "allocate_loop instance base cap idx xs = (None, instance') \<Longrightarrow>
     Exports instance ''__allocate'' = Some fn \<Longrightarrow>
     live (Guest instance) \<subseteq> {..<length (Memory instance)} \<Longrightarrow>
     base \<in> live (Guest instance) \<Longrightarrow>
     length (Memory instance') \<le> 2 ^ 32 \<Longrightarrow>
       (\<forall>x\<in>set xs. length x < 2 ^ 32)"
proof (induction xs arbitrary: "instance" idx)
  case Nil
  then show ?case by simp
next
  case (Cons x rest)
  from Cons.prems(1) obtain loc i1 where
    ai: "allocateInner instance x = (Inr loc, i1)" and
    inside: "base + 8 * idx + 8 \<le> length (Memory i1)" and
    rec: "allocate_loop
       (i1\<lparr>Memory := take (base + 8 * idx) (Memory i1) @ PutUint64 loc @
          drop (base + 8 * idx + 8) (Memory i1)\<rparr>) base cap (idx + 1) rest = (None, instance')"
      (is "allocate_loop ?i2 _ _ _ _ = _")
    by (rule allocate_loop_step)
  from fresh Cons.prems(2,3) ai obtain ptr :: "32 word" where
    room: "nat (sint ptr) + length x \<le> length (Memory i1)" and
    ex1: "Exports i1 = Exports instance" and
    sub: "live (Guest instance) \<subseteq> live (Guest i1)" and
    in1: "live (Guest i1) \<subseteq> {..<length (Memory i1)}" and
    disjoint: "length x < 2 ^ 64 \<longrightarrow>
       {nat (sint ptr)..<nat (sint ptr) + length x} \<inter> live (Guest instance) = {}"
    by (rule allocateInner_fresh)
  have len2: "length (Memory ?i2) = length (Memory i1)"
    using inside by (simp add: length_PutUint64)
  have ex2: "Exports ?i2 ''__allocate'' = Some fn" using ex1 Cons.prems(2) by simp
  have in2: "live (Guest ?i2) \<subseteq> {..<length (Memory ?i2)}" using in1 len2 by simp
  from allocate_loop_grows [OF fresh rec ex2 in2]
  have final: "length (Memory i1) \<le> length (Memory instance')"
    and live': "live (Guest i1) \<subseteq> {..<length (Memory instance')}"
    using len2 by auto
  have le: "nat (sint ptr) + length x \<le> 2 ^ 32"
    using room final Cons.prems(5) by linarith
  then have "length x \<le> 2 ^ 32" by linarith
  also have "(2 :: nat) ^ 32 < 2 ^ 64" by simp
  finally have "length x < 2 ^ 64" .
  then have "base \<notin> {nat (sint ptr)..<nat (sint ptr) + length x}"
    using disjoint Cons.prems(4) by blast
  then have out: "base < nat (sint ptr) \<or> nat (sint ptr) + length x \<le> base" by auto
  have "base < length (Memory instance')" using Cons.prems(4) sub live' by blast
  then have "base < 2 ^ 32" using Cons.prems(5) by linarith
  with out le have first: "length x < 2 ^ 32" by linarith
  have "\<forall>y\<in>set rest. length y < 2 ^ 32"
  proof (rule Cons.IH [OF rec ex2 in2])
    show "base \<in> live (Guest ?i2)" using Cons.prems(4) sub by auto
    show "length (Memory instance') \<le> 2 ^ 32" by (rule Cons.prems(5))
  qed
  with first show ?case by simp
qed

text \<open>
  The invariant of the loop, for a fresh allocator and a table whose bytes are live.
  After the loop no live byte outside the table entries of this run has changed, and
  every entry of this run holds the little-endian bytes of a descriptor whose range
  holds its element.
\<close>

lemma allocate_loop_writes:
  assumes fresh: "fresh_allocator fn live"
  shows "allocate_loop instance base cap idx xs = (None, instance') \<Longrightarrow>
     Exports instance ''__allocate'' = Some fn \<Longrightarrow>
     live (Guest instance) \<subseteq> {..<length (Memory instance)} \<Longrightarrow>
     {base..<base + 8 * (idx + length xs)} \<subseteq> live (Guest instance) \<Longrightarrow>
     (\<forall>x\<in>set xs. length x < 2 ^ 32) \<Longrightarrow>
       (\<forall>a\<in>live (Guest instance).
            (a < base + 8 * idx \<or> base + 8 * (idx + length xs) \<le> a) \<longrightarrow>
            Memory instance' ! a = Memory instance ! a) \<and>
       (\<forall>i < length xs. \<exists>ptr. 0 \<le> sint ptr \<and>
            take 8 (drop (base + 8 * (idx + i)) (Memory instance')) =
              PutUint64 (pack (of_nat (length (xs ! i))) ptr) \<and>
            nat (sint ptr) + length (xs ! i) \<le> length (Memory instance') \<and>
            take (length (xs ! i)) (drop (nat (sint ptr)) (Memory instance')) = xs ! i)"
proof (induction xs arbitrary: "instance" idx)
  case Nil
  then show ?case by simp
next
  case (Cons x rest)
  let ?g = "Guest instance" and ?m = "Memory instance" and ?M' = "Memory instance'"
  from Cons.prems(1) obtain loc i1 where
    ai: "allocateInner instance x = (Inr loc, i1)" and
    inside: "base + 8 * idx + 8 \<le> length (Memory i1)" and
    rec: "allocate_loop
       (i1\<lparr>Memory := take (base + 8 * idx) (Memory i1) @ PutUint64 loc @
          drop (base + 8 * idx + 8) (Memory i1)\<rparr>) base cap (idx + 1) rest = (None, instance')"
      (is "allocate_loop ?i2 _ _ _ _ = _")
    by (rule allocate_loop_step)
  have "length x < 2 ^ 32" using Cons.prems(5) by simp
  also have "(2 :: nat) ^ 32 < 2 ^ 64" by simp
  finally have small: "length x < 2 ^ 64" .
  from fresh Cons.prems(2,3) ai obtain ptr where
    nonneg: "0 \<le> sint ptr" and
    loc: "loc = pack (of_nat (length x)) ptr" and
    room: "nat (sint ptr) + length x \<le> length (Memory i1)" and
    content: "take (length x) (drop (nat (sint ptr)) (Memory i1)) = x" and
    ex1: "Exports i1 = Exports instance" and
    sub: "live ?g \<subseteq> live (Guest i1)" and
    in1: "live (Guest i1) \<subseteq> {..<length (Memory i1)}" and
    disjoint0: "length x < 2 ^ 64 \<longrightarrow>
       {nat (sint ptr)..<nat (sint ptr) + length x} \<inter> live ?g = {}" and
    block0: "length x < 2 ^ 64 \<longrightarrow>
       {nat (sint ptr)..<nat (sint ptr) + length x} \<subseteq> live (Guest i1)" and
    frame0: "length x < 2 ^ 64 \<longrightarrow> (\<forall>a\<in>live ?g. Memory i1 ! a = ?m ! a)"
    by (rule allocateInner_fresh)
  have disjoint: "{nat (sint ptr)..<nat (sint ptr) + length x} \<inter> live ?g = {}"
    and block: "{nat (sint ptr)..<nat (sint ptr) + length x} \<subseteq> live (Guest i1)"
    and frame1: "\<forall>a\<in>live ?g. Memory i1 ! a = ?m ! a"
    using small disjoint0 block0 frame0 by blast+
  define p where "p = nat (sint ptr)"
  define M1 where "M1 = Memory i1"
  define M2 where "M2 = take (base + 8 * idx) M1 @ PutUint64 loc @ drop (base + 8 * idx + 8) M1"
  have m2: "Memory ?i2 = M2" and g2: "Guest ?i2 = Guest i1" by (simp_all add: M2_def M1_def)
  have lenM2: "length M2 = length M1"
    using inside by (simp add: M2_def M1_def length_PutUint64)
  have ex2: "Exports ?i2 ''__allocate'' = Some fn" using ex1 Cons.prems(2) by simp
  have in2: "live (Guest ?i2) \<subseteq> {..<length (Memory ?i2)}"
    using in1 lenM2 by (simp add: M2_def M1_def)
  have table: "{base..<base + 8 * (idx + 1 + length rest)} \<subseteq> live ?g"
    using Cons.prems(4) by simp
  have ih: "(\<forall>a\<in>live (Guest ?i2).
            (a < base + 8 * (idx + 1) \<or> base + 8 * (idx + 1 + length rest) \<le> a) \<longrightarrow>
            ?M' ! a = Memory ?i2 ! a) \<and>
       (\<forall>i < length rest. \<exists>ptr. 0 \<le> sint ptr \<and>
            take 8 (drop (base + 8 * (idx + 1 + i)) ?M') =
              PutUint64 (pack (of_nat (length (rest ! i))) ptr) \<and>
            nat (sint ptr) + length (rest ! i) \<le> length ?M' \<and>
            take (length (rest ! i)) (drop (nat (sint ptr)) ?M') = rest ! i)"
  proof (rule Cons.IH [OF rec ex2 in2])
    show "{base..<base + 8 * (idx + 1 + length rest)} \<subseteq> live (Guest ?i2)"
      using table sub by auto
    show "\<forall>x\<in>set rest. length x < 2 ^ 32" using Cons.prems(5) by simp
  qed
  from allocate_loop_grows [OF fresh rec ex2 in2]
  have final: "length M1 \<le> length ?M'" using lenM2 by (simp add: m2)
  have frame': "?M' ! a = M2 ! a"
    if "a \<in> live (Guest i1)"
      and "a < base + 8 * (idx + 1) \<or> base + 8 * (idx + 1 + length rest) \<le> a" for a
    using ih that unfolding m2 g2 by blast
  have reads': "\<exists>ptr. 0 \<le> sint ptr \<and>
            take 8 (drop (base + 8 * (idx + 1 + i)) ?M') =
              PutUint64 (pack (of_nat (length (rest ! i))) ptr) \<and>
            nat (sint ptr) + length (rest ! i) \<le> length ?M' \<and>
            take (length (rest ! i)) (drop (nat (sint ptr)) ?M') = rest ! i"
    if "i < length rest" for i
    using ih that by blast
  have M2_out: "M2 ! a = M1 ! a"
    if "a < length M1" and "a < base + 8 * idx \<or> base + 8 * idx + 8 \<le> a" for a
    unfolding M2_def
    using that inside nth_splice_outside [of "base + 8 * idx" "PutUint64 loc" M1 a]
    by (simp add: length_PutUint64 M1_def)
  have c3: "\<forall>a\<in>live ?g.
            (a < base + 8 * idx \<or> base + 8 * (idx + length (x # rest)) \<le> a) \<longrightarrow>
            ?M' ! a = ?m ! a"
  proof (intro ballI impI)
    fix a
    assume a: "a \<in> live ?g"
      and out: "a < base + 8 * idx \<or> base + 8 * (idx + length (x # rest)) \<le> a"
    have a1: "a \<in> live (Guest i1)" using a sub by auto
    then have "a < length M1" using in1 by (auto simp add: M1_def)
    have "?M' ! a = M2 ! a" using a1 out by (intro frame') auto
    also have "\<dots> = M1 ! a" using \<open>a < length M1\<close> out by (intro M2_out) auto
    also have "\<dots> = ?m ! a" using frame1 a by (simp add: M1_def)
    finally show "?M' ! a = ?m ! a" .
  qed
  have entry: "take 8 (drop (base + 8 * idx) ?M') = PutUint64 loc"
  proof -
    have "take 8 (drop (base + 8 * idx) ?M') = take 8 (drop (base + 8 * idx) M2)"
    proof (rule window_cong)
      show "base + 8 * idx + 8 \<le> length ?M'" using inside final by (simp add: M1_def)
      show "base + 8 * idx + 8 \<le> length M2" using inside lenM2 by (simp add: M1_def)
      fix a
      assume a: "base + 8 * idx \<le> a" "a < base + 8 * idx + 8"
      then have "a \<in> live ?g" using table by auto
      then have "a \<in> live (Guest i1)" using sub by auto
      then show "?M' ! a = M2 ! a" using a by (intro frame') auto
    qed
    also have "\<dots> = PutUint64 loc"
      unfolding M2_def
      using inside window_splice [of "base + 8 * idx" "PutUint64 loc" M1]
      by (simp add: length_PutUint64 M1_def)
    finally show ?thesis .
  qed
  have room': "p + length x \<le> length ?M'" using room final by (simp add: p_def M1_def)
  have data: "take (length x) (drop p ?M') = x"
  proof -
    have "take (length x) (drop p ?M') = take (length x) (drop p M1)"
    proof (rule window_cong)
      show "p + length x \<le> length ?M'" by (rule room')
      show "p + length x \<le> length M1" using room by (simp add: p_def M1_def)
      fix a
      assume a: "p \<le> a" "a < p + length x"
      then have blk: "a \<in> {nat (sint ptr)..<nat (sint ptr) + length x}" by (simp add: p_def)
      then have a1: "a \<in> live (Guest i1)" using block by auto
      have "a \<notin> live ?g" using blk disjoint by blast
      then have "a \<notin> {base..<base + 8 * (idx + 1 + length rest)}" using table by blast
      then have out: "a < base \<or> base + 8 * (idx + 1 + length rest) \<le> a" by auto
      have "a < length M1" using a1 in1 by (auto simp add: M1_def)
      have "?M' ! a = M2 ! a" using a1 out by (intro frame') auto
      also have "\<dots> = M1 ! a" using \<open>a < length M1\<close> out by (intro M2_out) auto
      finally show "?M' ! a = M1 ! a" .
    qed
    also have "\<dots> = x" using content by (simp add: p_def M1_def)
    finally show ?thesis .
  qed
  have c4: "\<forall>i < length (x # rest). \<exists>ptr. 0 \<le> sint ptr \<and>
            take 8 (drop (base + 8 * (idx + i)) ?M') =
              PutUint64 (pack (of_nat (length ((x # rest) ! i))) ptr) \<and>
            nat (sint ptr) + length ((x # rest) ! i) \<le> length ?M' \<and>
            take (length ((x # rest) ! i)) (drop (nat (sint ptr)) ?M') = (x # rest) ! i"
  proof (intro allI impI)
    fix i
    assume i: "i < length (x # rest)"
    show "\<exists>ptr. 0 \<le> sint ptr \<and>
            take 8 (drop (base + 8 * (idx + i)) ?M') =
              PutUint64 (pack (of_nat (length ((x # rest) ! i))) ptr) \<and>
            nat (sint ptr) + length ((x # rest) ! i) \<le> length ?M' \<and>
            take (length ((x # rest) ! i)) (drop (nat (sint ptr)) ?M') = (x # rest) ! i"
    proof (cases i)
      case 0
      have "0 \<le> sint ptr \<and>
            take 8 (drop (base + 8 * (idx + 0)) ?M') =
              PutUint64 (pack (of_nat (length x)) ptr) \<and>
            nat (sint ptr) + length x \<le> length ?M' \<and>
            take (length x) (drop (nat (sint ptr)) ?M') = x"
        using nonneg entry room' data by (simp add: loc p_def)
      then show ?thesis using 0 by auto
    next
      case (Suc j)
      then have "j < length rest" using i by simp
      from reads' [OF this] show ?thesis using Suc by simp
    qed
  qed
  from c3 c4 show ?case by blast
qed

text \<open>
  The table and the elements after a successful \<open>allocate\<close>, for lengths that fit the
  32-bit length field.
\<close>

lemma allocate_entries:
  assumes fresh: "fresh_allocator fn live"
    and ex: "Exports instance ''__allocate'' = Some fn"
    and inv: "live (Guest instance) \<subseteq> {..<length (Memory instance)}"
    and run: "allocate instance data = (Inr d, instance')"
    and count: "length data < 2 ^ 32"
    and sizes: "\<forall>x\<in>set data. length x < 2 ^ 32"
  shows "\<exists>res g1 m1.
      fn [of_nat (8 * length data)] (Guest instance) (Memory instance) = (Inr res, g1, m1) \<and>
      d = pack (of_nat (length data)) (ToI32 res) \<and>
      descriptor_length d = length data \<and>
      descriptor_offset d = nat (sint (ToI32 res)) \<and>
      (\<forall>i<length data. \<exists>ptr. 0 \<le> sint ptr \<and>
          table_entry (Memory instance') d i =
            PutUint64 (pack (of_nat (length (data ! i))) ptr) \<and>
          nat (sint ptr) + length (data ! i) \<le> length (Memory instance') \<and>
          take (length (data ! i)) (drop (nat (sint ptr)) (Memory instance')) = data ! i)"
proof -
  from run obtain fn' res i1 where
    fn': "Exports instance ''__allocate'' = Some fn'" and
    c: "call instance fn' [of_nat (8 * length data)] = (Inr res, i1)" and
    nonneg: "0 \<le> sint (ToI32 res)" and
    loop: "allocate_loop i1 (nat (sint (ToI32 res)))
        (length (Memory i1) - nat (sint (ToI32 res))) 0 data = (None, instance')" and
    d: "d = pack (of_nat (length data)) (ToI32 res)"
    by (rule allocate_Inr)
  have fn_eq: "fn' = fn" using fn' ex by simp
  define p where "p = nat (sint (ToI32 res))"
  let ?M' = "Memory instance'"
  obtain g1 m1 where
    answer: "fn [of_nat (8 * length data)] (Guest instance) (Memory instance) = (Inr res, g1, m1)"
    and i1: "i1 = instance\<lparr>Memory := m1, Guest := g1\<rparr>"
    using c fn_eq by (auto simp add: call_def split: prod.splits)
  have "8 * length data < 2 ^ 64" using count by simp
  then have req: "unat (of_nat (8 * length data) :: 64 word) = 8 * length data"
    by (rule unat_of_nat_64)
  have "live (Guest instance) \<union>
        {nat (sint (ToI32 res))..<
         nat (sint (ToI32 res)) + unat (of_nat (8 * length data) :: 64 word)} \<subseteq> live g1 \<and>
      live g1 \<subseteq> {..<length m1}"
    using fresh inv answer unfolding fresh_allocator_def by blast
  then have "live (Guest instance) \<union> {p..<p + 8 * length data} \<subseteq> live g1 \<and>
      live g1 \<subseteq> {..<length m1}"
    unfolding req p_def .
  then have table: "{p..<p + 8 * (0 + length data)} \<subseteq> live (Guest i1)"
    and in1: "live (Guest i1) \<subseteq> {..<length (Memory i1)}"
    by (simp_all add: i1)
  have ex1: "Exports i1 ''__allocate'' = Some fn" using ex by (simp add: i1)
  have written: "\<forall>i < length data. \<exists>ptr. 0 \<le> sint ptr \<and>
      take 8 (drop (p + 8 * (0 + i)) ?M') = PutUint64 (pack (of_nat (length (data ! i))) ptr) \<and>
      nat (sint ptr) + length (data ! i) \<le> length ?M' \<and>
      take (length (data ! i)) (drop (nat (sint ptr)) ?M') = data ! i"
    using allocate_loop_writes [OF fresh loop [folded p_def] ex1 in1 table sizes] by blast
  have off: "descriptor_offset d = p"
    unfolding d p_def using nonneg by (rule pack_offset_field)
  have len: "descriptor_length d = length data"
    unfolding d using nonneg count by (rule pack_length_field)
  have "\<forall>i<length data. \<exists>ptr. 0 \<le> sint ptr \<and>
      table_entry ?M' d i = PutUint64 (pack (of_nat (length (data ! i))) ptr) \<and>
      nat (sint ptr) + length (data ! i) \<le> length ?M' \<and>
      take (length (data ! i)) (drop (nat (sint ptr)) ?M') = data ! i"
    using written by (simp add: table_entry_def off)
  with answer d len off [unfolded p_def] show ?thesis by blast
qed

text \<open>
  In a memory of at most \<open>2^32\<close> bytes, the limit of a 32-bit address space, the count
  and the length of every buffer of a successfully written array fit the length field.
\<close>

lemma allocate_sizes:
  assumes fresh: "fresh_allocator fn live"
    and ex: "Exports instance ''__allocate'' = Some fn"
    and inv: "live (Guest instance) \<subseteq> {..<length (Memory instance)}"
    and run: "allocate instance data = (Inr d, instance')"
    and limit: "length (Memory instance') \<le> 2 ^ 32"
  shows "length data < 2 ^ 32 \<and> (\<forall>x\<in>set data. length x < 2 ^ 32)"
proof (cases "data = []")
  case True
  then show ?thesis by simp
next
  case False
  from run obtain fn' res i1 where
    fn': "Exports instance ''__allocate'' = Some fn'" and
    c: "call instance fn' [of_nat (8 * length data)] = (Inr res, i1)" and
    room: "nat (sint (ToI32 res)) + 8 * length data \<le> length (Memory i1)" and
    loop: "allocate_loop i1 (nat (sint (ToI32 res)))
        (length (Memory i1) - nat (sint (ToI32 res))) 0 data = (None, instance')"
    by (rule allocate_Inr)
  have fn_eq: "fn' = fn" using fn' ex by simp
  define p where "p = nat (sint (ToI32 res))"
  obtain g1 m1 where
    answer: "fn [of_nat (8 * length data)] (Guest instance) (Memory instance) = (Inr res, g1, m1)"
    and i1: "i1 = instance\<lparr>Memory := m1, Guest := g1\<rparr>"
    using c fn_eq by (auto simp add: call_def split: prod.splits)
  have spec: "{p..<p + unat (of_nat (8 * length data) :: 64 word)} \<subseteq> live g1 \<and>
      live g1 \<subseteq> {..<length m1}"
    using fresh inv answer unfolding fresh_allocator_def p_def by blast
  have ex1: "Exports i1 ''__allocate'' = Some fn" using ex by (simp add: i1)
  have in1: "live (Guest i1) \<subseteq> {..<length (Memory i1)}" using spec by (simp add: i1)
  from allocate_loop_grows [OF fresh loop ex1 in1]
  have grown: "length (Memory i1) \<le> length (Memory instance')" by simp
  have table: "8 * length data \<le> 2 ^ 32" using room grown limit by linarith
  then have count: "length data < 2 ^ 32" by simp
  have "8 * length data < 2 ^ 64" using table by simp
  then have "unat (of_nat (8 * length data) :: 64 word) = 8 * length data"
    by (rule unat_of_nat_64)
  moreover have "0 < length data" using False by simp
  ultimately have "p \<in> live (Guest i1)" using spec by (auto simp add: i1)
  from allocate_loop_sizes [OF fresh loop [folded p_def] ex1 in1 this limit] count
  show ?thesis by simp
qed

lemma read_buffer_pack:
  assumes "0 \<le> sint ptr" and "n < 2 ^ 32" and "nat (sint ptr) + n \<le> length m"
  shows "read_buffer m (pack (of_nat n) ptr) = Some (take n (drop (nat (sint ptr)) m))"
  using assms(3)
  by (simp only: read_buffer_def pack_length_field [OF assms(1,2)]
      pack_offset_field [OF assms(1)] if_True)

text \<open>
  C4, amended. Let the guest's \<^verbatim>\<open>__allocate\<close> hand out fresh blocks
  (\<open>fresh_allocator\<close>, for some set \<open>live\<close> of addresses in use that lies inside the
  memory at the start), and let \<open>allocate\<close> succeed on the buffers \<open>data\<close>, leaving a
  memory of at most \<open>2^32\<close> bytes. Then the allocator was asked for \<open>8 * length data\<close>
  bytes and answered with the table's offset; the outer descriptor is \<open>pack\<close> of the
  count and that offset, and these are its length and offset fields on the wire; entry
  \<open>i\<close> of the table, the eight bytes at table offset \<open>8 * i\<close>, is the little-endian
  encoding of a descriptor that addresses the bytes of buffer \<open>i\<close>; and reading the
  table at the outer descriptor and each entry's range yields the buffers in their
  order.
\<close>

theorem allocate_array_roundtrip:
  assumes fresh: "fresh_allocator fn live"
    and ex: "Exports instance ''__allocate'' = Some fn"
    and inv: "live (Guest instance) \<subseteq> {..<length (Memory instance)}"
    and run: "allocate instance data = (Inr d, instance')"
    and limit: "length (Memory instance') \<le> 2 ^ 32"
  shows "\<exists>res g1 m1.
      fn [of_nat (8 * length data)] (Guest instance) (Memory instance) = (Inr res, g1, m1) \<and>
      d = pack (of_nat (length data)) (ToI32 res) \<and>
      descriptor_length d = length data \<and>
      descriptor_offset d = nat (sint (ToI32 res)) \<and>
      (\<forall>i<length data. \<exists>loc. table_entry (Memory instance') d i = PutUint64 loc \<and>
          read_buffer (Memory instance') loc = Some (data ! i)) \<and>
      read_array (Memory instance') d = map Some data"
proof -
  let ?M' = "Memory instance'"
  from allocate_sizes [OF fresh ex inv run limit]
  have count: "length data < 2 ^ 32" and sizes: "\<forall>x\<in>set data. length x < 2 ^ 32"
    by simp_all
  from allocate_entries [OF fresh ex inv run count sizes] obtain res g1 m1 where
    answer: "fn [of_nat (8 * length data)] (Guest instance) (Memory instance) = (Inr res, g1, m1)"
    and d: "d = pack (of_nat (length data)) (ToI32 res)"
    and len: "descriptor_length d = length data"
    and off: "descriptor_offset d = nat (sint (ToI32 res))"
    and written: "\<forall>i<length data. \<exists>ptr. 0 \<le> sint ptr \<and>
          table_entry ?M' d i = PutUint64 (pack (of_nat (length (data ! i))) ptr) \<and>
          nat (sint ptr) + length (data ! i) \<le> length ?M' \<and>
          take (length (data ! i)) (drop (nat (sint ptr)) ?M') = data ! i"
    by blast
  have entries: "\<exists>loc. table_entry ?M' d i = PutUint64 loc \<and>
      read_buffer ?M' loc = Some (data ! i)" if "i < length data" for i
  proof -
    from written that obtain ptr where
      ptr: "0 \<le> sint ptr" and
      bytes: "table_entry ?M' d i = PutUint64 (pack (of_nat (length (data ! i))) ptr)" and
      room: "nat (sint ptr) + length (data ! i) \<le> length ?M'" and
      content: "take (length (data ! i)) (drop (nat (sint ptr)) ?M') = data ! i"
      by blast
    have "length (data ! i) < 2 ^ 32" using sizes that by simp
    from read_buffer_pack [OF ptr this room] content
    have "read_buffer ?M' (pack (of_nat (length (data ! i))) ptr) = Some (data ! i)" by simp
    with bytes show ?thesis by blast
  qed
  have "read_array ?M' d = map Some data"
  proof (rule nth_equalityI)
    show "length (read_array ?M' d) = length (map Some data)"
      by (simp add: read_array_def len)
  next
    fix i
    assume "i < length (read_array ?M' d)"
    then have i: "i < length data" by (simp add: read_array_def len)
    from entries [OF i] obtain loc where "table_entry ?M' d i = PutUint64 loc"
      "read_buffer ?M' loc = Some (data ! i)" by blast
    then show "read_array ?M' d ! i = map Some data ! i"
      using i by (simp add: read_array_def len Uint64_PutUint64)
  qed
  with answer d len off entries show ?thesis by blast
qed

lemma sint_ToI32_of_nat: "g < 2 ^ 31 \<Longrightarrow> sint (ToI32 (of_nat g)) = int g"
proof -
  assume g: "g < 2 ^ 31"
  have "ToI32 (of_nat g) = (of_nat g :: 32 word)"
    unfolding ToI32_def by (rule bit_word_eqI) (auto simp add: bit_simps dest: bit_imp_le_length)
  moreover have "sint (of_nat g :: 32 word) = int g"
    using g by (simp add: signed_of_nat signed_take_bit_int_eq_self)
  ultimately show ?thesis by simp
qed

text \<open>
  The bump allocator hands out fresh blocks; the live addresses are those below its
  next free offset.
\<close>

lemma bump_allocate_fresh: "fresh_allocator bump_allocate (\<lambda>g. {..<g})"
  unfolding fresh_allocator_def
proof (intro allI impI)
  fix n :: "64 word" and g m res g' m'
  assume "{..<g} \<subseteq> {..<length m}" and call: "bump_allocate [n] g m = (Inr res, g', m')"
  then have ok: "g + unat n \<le> length m" "g + unat n < 2 ^ 31"
    and res: "res = of_nat g" "g' = g + unat n" "m' = m"
    by (auto simp add: bump_allocate_def split: if_splits)
  have "g < 2 ^ 31" using ok(2) by simp
  then have "sint (ToI32 res) = int g" unfolding res by (rule sint_ToI32_of_nat)
  then have p: "nat (sint (ToI32 res)) = g" by simp
  show "{nat (sint (ToI32 res))..<nat (sint (ToI32 res)) + unat n} \<inter> {..<g} = {} \<and>
      {..<g} \<union> {nat (sint (ToI32 res))..<nat (sint (ToI32 res)) + unat n} \<subseteq> {..<g'} \<and>
      {..<g'} \<subseteq> {..<length m'} \<and> length m \<le> length m' \<and> (\<forall>a\<in>{..<g}. m' ! a = m ! a)"
    unfolding p using ok res by auto
qed

text \<open>
  Two buffers through the bump allocator over 64 bytes: the table at offset 0, the
  buffers behind it, and the reader gets both back in order.
\<close>

theorem allocate_array_roundtrip_witness:
  "fresh_allocator bump_allocate (\<lambda>g. {..<g}) \<and>
   Exports (bump_instance [] 64) ''__allocate'' = Some bump_allocate \<and>
   {..<Guest (bump_instance [] 64)} \<subseteq> {..<length (Memory (bump_instance [] 64))} \<and>
   fst (allocate (bump_instance [] 64) [[1, 2], [3]]) = Inr 0x200000000 \<and>
   length (Memory (snd (allocate (bump_instance [] 64) [[1, 2], [3]]))) \<le> 2 ^ 32 \<and>
   read_array (Memory (snd (allocate (bump_instance [] 64) [[1, 2], [3]]))) 0x200000000 =
     [Some [1, 2], Some [3]]"
proof -
  let ?M' = "[0x10, 0, 0, 0, 2, 0, 0, 0, 0x12, 0, 0, 0, 1, 0, 0, 0, 1, 2, 3] @
      replicate 45 (0 :: byte)"
  let ?i' = "\<lparr>Exports = Exports (bump_instance [] 64), Memory = ?M', Guest = 19 :: nat\<rparr>"
  have ex: "Exports (bump_instance [] 64) ''__allocate'' = Some bump_allocate"
    by (simp add: bump_instance_def)
  have inv: "{..<Guest (bump_instance [] 64)} \<subseteq> {..<length (Memory (bump_instance [] 64))}"
    by (simp add: bump_instance_def)
  have limit: "length (Memory ?i') \<le> 2 ^ 32" by simp
  from allocate_array_roundtrip [OF bump_allocate_fresh ex inv bump_64_array limit]
  have "read_array (Memory ?i') 0x200000000 = map Some [[1, 2], [3]]" by blast
  then show ?thesis using bump_allocate_fresh ex inv bump_64_array by simp
qed

lemma overlapping_array:
  "allocate overlapping_instance [[1], [2]] =
     (Inr 0x200000000,
      overlapping_instance
        \<lparr>Memory := [2, 0, 0, 0, 1, 0, 0, 0, 0, 0, 0, 0, 1, 0, 0, 0]\<rparr>)"
  by (simp add: eval_defs overlapping_instance_def)

text \<open>
  C4 as stated fails when the allocator reuses addresses. Here every request is answered
  with offset 0: the writer succeeds on the buffers \<open>[1]\<close> and \<open>[2]\<close>, the second
  buffer and the table overwrite the first, and the reader gets \<open>[0]\<close> and \<open>[2]\<close>.
\<close>

theorem allocate_array_counterexample:
  "fst (allocate overlapping_instance [[1], [2]]) = Inr 0x200000000 \<and>
   read_array (Memory (snd (allocate overlapping_instance [[1], [2]]))) 0x200000000 =
     [Some [0], Some [2]] \<and>
   read_array (Memory (snd (allocate overlapping_instance [[1], [2]]))) 0x200000000 \<noteq>
     map Some [[1], [2]]"
  by (simp add: overlapping_array read_array_def table_entry_def read_buffer_def
      descriptor_length_def descriptor_offset_def upt_rec)

text \<open>
  The host's own reader gets the elements back as well, as long as each is shorter than
  \<open>2^31\<close> bytes.
\<close>

lemma parseOutput_pack:
  assumes "0 \<le> sint ptr" and "n < 2 ^ 31" and "nat (sint ptr) + n \<le> length (Memory instance)"
  shows "parseOutput instance (pack (of_nat n) ptr) =
     Inr (take n (drop (nat (sint ptr)) (Memory instance)))"
proof -
  have fields: "unpack (pack (of_nat n) ptr) = (of_nat n, ucast ptr)"
    using assms(1,2) by (rule unpack_pack_of_nat)
  have offset: "sint (ucast ptr :: 64 word) = sint ptr"
    using assms(1) by (simp add: sint_ucast_32_64 sint_eq_uint_32)
  have count: "sint (of_nat n :: 64 word) = int n"
    using assms(2) by (simp add: sint_of_nat_64)
  show ?thesis
    using assms(1,3) by (simp add: parseOutput_cases [OF fields] offset count)
qed

lemma allocate_array_parseOutput:
  assumes fresh: "fresh_allocator fn live"
    and ex: "Exports instance ''__allocate'' = Some fn"
    and inv: "live (Guest instance) \<subseteq> {..<length (Memory instance)}"
    and run: "allocate instance data = (Inr d, instance')"
    and count: "length data < 2 ^ 32"
    and sizes: "\<forall>x\<in>set data. length x < 2 ^ 31"
    and i: "i < length data"
  shows "parseOutput instance' (Uint64 (table_entry (Memory instance') d i)) = Inr (data ! i)"
proof -
  have "\<forall>x\<in>set data. length x < 2 ^ 32"
  proof
    fix x
    assume "x \<in> set data"
    then have "length x < 2 ^ 31" using sizes by simp
    then show "length x < 2 ^ 32" by (rule less_trans) simp
  qed
  from allocate_entries [OF fresh ex inv run count this] i obtain ptr where
    ptr: "0 \<le> sint ptr" and
    bytes: "table_entry (Memory instance') d i =
      PutUint64 (pack (of_nat (length (data ! i))) ptr)" and
    room: "nat (sint ptr) + length (data ! i) \<le> length (Memory instance')" and
    content: "take (length (data ! i)) (drop (nat (sint ptr)) (Memory instance')) = data ! i"
    by blast
  have "length (data ! i) < 2 ^ 31" using sizes i by simp
  from parseOutput_pack [OF ptr this room] content bytes
  show ?thesis by (simp add: Uint64_PutUint64)
qed

end
